theory Spec2Isabelle
  imports Complex_Main
begin

section \<open>The live session of src/components/LiveSession.tsx\<close>

text \<open>
  The component keeps React state (\<open>useState\<close>), mutable references (\<open>useRef\<close>) and
  objects of the browser (audio contexts, media tracks, timers, audio nodes). The model is
  one record holding all three, and every callback of the component is a function from
  that record to the updated record. JavaScript numbers that carry times are modelled as
  reals: the rounding of floating-point addition is not part of the model.
\<close>

subsection \<open>Data\<close>

datatype ConnectionStatus = Disconnected | Connecting | Connected | ErrorStatus

text \<open>The exceptions that the calls made by the component can raise.\<close>

datatype js_error = InvalidStateError | RangeError | TypeError | DecodeError

text \<open>
  The value handed to \<open>setVolumeLevel\<close>. \<open>NaN\<close> is what \<open>Math.sqrt(0 / 0)\<close> gives
  for a window with no samples.
\<close>

datatype level = Level real | NaN

text \<open>
  An \<open>AudioBuffer\<close>: its \<open>duration\<close> attribute is its length in sample frames divided
  by its sample rate.
\<close>

record audio_buffer =
  buf_length :: nat
  buf_sampleRate :: nat

definition duration :: "audio_buffer \<Rightarrow> real" where
  "duration b = real (buf_length b) / real (buf_sampleRate b)"

text \<open>
  An \<open>AudioBufferSourceNode\<close> (the playback handle). \<open>start_time\<close> is the argument of
  its \<open>start\<close> call, \<open>None\<close> while \<open>start\<close> has not been called; \<open>stop_called\<close> records a
  \<open>stop\<close> call that took effect; \<open>ended\<close> records that playback ran to the end of the
  buffer.
\<close>

record source_node =
  buffer :: audio_buffer
  start_time :: "real option"
  stop_called :: bool
  ended :: bool

text \<open>The object sent through \<open>sendRealtimeInput({ media: ... })\<close>.\<close>

record blob =
  data :: string
  mimeType :: string

text \<open>
  What \<open>onmessage\<close> reads from a \<open>LiveServerMessage\<close>:
  \<open>message.serverContent?.modelTurn?.parts?.[0]?.inlineData?.data\<close> (\<open>None\<close> when the
  chain is undefined) and the truth value of \<open>message.serverContent?.interrupted\<close>.
\<close>

record server_message =
  base64Audio :: "string option"
  interrupted :: bool

text \<open>
  The bindings of one render of the component that the callbacks created by
  \<open>startSession\<close> close over: \<open>isMuted\<close> and \<open>isVideoEnabled\<close> are \<open>const\<close>
  bindings of the render in which \<open>startSession\<close> was created, so a callback installed
  by that \<open>startSession\<close> reads these values for as long as it lives.
\<close>

record render =
  r_isMuted :: bool
  r_isVideoEnabled :: bool

text \<open>
  What the environment answers during one run of \<open>startSession\<close>:
  \<open>process.env.API_KEY\<close>, and the outcome of \<open>getUserMedia\<close>, either a rejection with
  its message or the tracks of the stream.
\<close>

record start_env =
  apiKey :: "string option"
  userMedia :: "string + nat list"

record session =
  \<comment> \<open>React state\<close>
  status :: ConnectionStatus
  errorMsg :: "string option"
  isMuted :: bool
  isVideoEnabled :: bool
  volumeLevel :: level
  \<comment> \<open>references\<close>
  inputAudioContextRef :: "nat option"
  outputAudioContextRef :: "nat option"
  streamRef :: "nat list option"
  processorRef :: "nat option"
  nextStartTimeRef :: real
  videoIntervalRef :: "nat option"
  gainNodeRef :: "nat option"
  sessionPromiseRef :: "nat option"
  sourcesRef :: "nat list"
  \<comment> \<open>browser objects\<close>
  nextId :: nat
  openContexts :: "nat set"
  liveTracks :: "nat set"
  intervals :: "nat \<rightharpoonup> bool"
  processors :: "nat \<rightharpoonup> bool"
  nodes :: "nat \<rightharpoonup> source_node"
  sessions :: "nat \<rightharpoonup> render"
  outbound :: "(nat \<times> blob) list"
  pending :: "nat \<rightharpoonup> (js_error + audio_buffer) \<times> bool"
  nextPending :: nat

text \<open>
  Browser objects are named by numbers taken from \<open>nextId\<close>. \<open>openContexts\<close> are the
  audio contexts not yet closed, \<open>liveTracks\<close> the media tracks not yet stopped (a stream
  is the list of its tracks), \<open>intervals\<close> the running timers with the \<open>isVideoEnabled\<close>
  their callback closes over, \<open>processors\<close> the connected script processors with the
  \<open>isMuted\<close> their \<open>onaudioprocess\<close> closes over, \<open>sessions\<close> the session promises
  with the render their callbacks close over, \<open>outbound\<close> the blobs handed to
  \<open>sessionPromise.then(session => session.sendRealtimeInput(...))\<close> with the promise
  they were handed to, and \<open>pending\<close> the \<open>onmessage\<close> calls suspended at
  \<open>await decodeAudioData(...)\<close>: the outcome they will resume with and the
  \<open>interrupted\<close> flag of their message.

  The state of a freshly mounted component (lines 23-46).
\<close>

definition initial :: session where
  "initial = \<lparr> status = Disconnected, errorMsg = None, isMuted = False,
     isVideoEnabled = True, volumeLevel = Level 0,
     inputAudioContextRef = None, outputAudioContextRef = None, streamRef = None,
     processorRef = None, nextStartTimeRef = 0, videoIntervalRef = None,
     gainNodeRef = None, sessionPromiseRef = None, sourcesRef = [],
     nextId = 1, openContexts = {}, liveTracks = {}, intervals = Map.empty,
     processors = Map.empty, nodes = Map.empty, sessions = Map.empty, outbound = [],
     pending = Map.empty, nextPending = 0 \<rparr>"

subsection \<open>Playback handles and the live set\<close>

text \<open>
  \<open>AudioScheduledSourceNode.stop()\<close>: raises \<open>InvalidStateError\<close> when \<open>start\<close> was
  never called; has no effect on a node whose playback already ended.
\<close>

definition stop :: "source_node \<Rightarrow> js_error + source_node" where
  "stop n = (case start_time n of
       None \<Rightarrow> Inl InvalidStateError
     | Some t \<Rightarrow> Inr (if ended n then n else n\<lparr>stop_called := True\<rparr>))"

text \<open>\<open>Set.add\<close> and \<open>Set.delete\<close> on a set kept in insertion order.\<close>

definition set_add :: "nat \<Rightarrow> nat list \<Rightarrow> nat list" where
  "set_add h hs = (if h \<in> set hs then hs else hs @ [h])"

definition set_delete :: "nat \<Rightarrow> nat list \<Rightarrow> nat list" where
  "set_delete h hs = removeAll h hs"

text \<open>
  Lines 66-68: \<open>sourcesRef.current.forEach(source => { try { source.stop(); } catch (e) {} })\<close>.
  A raise is swallowed and the loop goes on.
\<close>

definition stop_caught :: "source_node \<Rightarrow> source_node" where
  "stop_caught n = (case stop n of Inl e \<Rightarrow> n | Inr n' \<Rightarrow> n')"

fun stop_ignoring :: "nat list \<Rightarrow> (nat \<rightharpoonup> source_node) \<Rightarrow> (nat \<rightharpoonup> source_node)" where
  "stop_ignoring [] ns = ns"
| "stop_ignoring (h # hs) ns =
     stop_ignoring hs (case ns h of None \<Rightarrow> ns | Some n \<Rightarrow> ns(h \<mapsto> stop_caught n))"

text \<open>
  Line 215: \<open>sourcesRef.current.forEach(s => s.stop())\<close>, with no \<open>try\<close>: the first raise
  leaves the loop, the nodes stopped so far stay stopped.
\<close>

fun stop_each :: "nat list \<Rightarrow> (nat \<rightharpoonup> source_node) \<Rightarrow> js_error option \<times> (nat \<rightharpoonup> source_node)" where
  "stop_each [] ns = (None, ns)"
| "stop_each (h # hs) ns =
     (case ns h of
        None \<Rightarrow> stop_each hs ns
      | Some n \<Rightarrow> (case stop n of
                    Inl e \<Rightarrow> (Some e, ns)
                  | Inr n' \<Rightarrow> stop_each hs (ns(h \<mapsto> n'))))"

subsection \<open>Teardown: \<open>stopSession\<close> (lines 49-81)\<close>

text \<open>
  Every \<open>if (ref.current)\<close> of the function is a test for \<open>null\<close>, except the first:
  \<open>videoIntervalRef.current\<close> is a number, and the number 0 is falsy as well.
\<close>

definition stopSession :: "session \<Rightarrow> session" where
  "stopSession s =
    (let s1 = (case videoIntervalRef s of
                 None \<Rightarrow> s
               | Some i \<Rightarrow> if i \<noteq> 0
                   then s\<lparr>videoIntervalRef := None, intervals := (intervals s)(i := None)\<rparr>
                   else s);
         s2 = (case processorRef s1 of
                 None \<Rightarrow> s1
               | Some p \<Rightarrow> s1\<lparr>processorRef := None, processors := (processors s1)(p := None)\<rparr>);
         s3 = (case inputAudioContextRef s2 of
                 None \<Rightarrow> s2
               | Some c \<Rightarrow> s2\<lparr>inputAudioContextRef := None, openContexts := openContexts s2 - {c}\<rparr>);
         s4 = (case streamRef s3 of
                 None \<Rightarrow> s3
               | Some ts \<Rightarrow> s3\<lparr>streamRef := None, liveTracks := liveTracks s3 - set ts\<rparr>);
         s5 = s4\<lparr>sourcesRef := [], nodes := stop_ignoring (sourcesRef s4) (nodes s4)\<rparr>;
         s6 = (case outputAudioContextRef s5 of
                 None \<Rightarrow> s5
               | Some c \<Rightarrow> s5\<lparr>outputAudioContextRef := None, openContexts := openContexts s5 - {c}\<rparr>)
     in s6\<lparr>gainNodeRef := None, sessionPromiseRef := None, status := Disconnected,
           volumeLevel := Level 0\<rparr>)"

subsection \<open>Start: \<open>startSession\<close> (lines 83-248)\<close>

text \<open>
  The function is taken as one step, from the click to the installation of the session
  promise; its \<open>await\<close>s are not points where the model lets other callbacks run. The
  three ways out are the missing key (line 92), the rejection of \<open>getUserMedia\<close> (both
  end in the \<open>catch\<close> of lines 243-247) and the normal end (line 241). \<open>e.message || d\<close>
  is \<open>d\<close> for an empty message.
\<close>

definition or_default :: "string \<Rightarrow> string \<Rightarrow> string" where
  "or_default m d = (if m = [] then d else m)"

definition startSession :: "start_env \<Rightarrow> session \<Rightarrow> session" where
  "startSession env s0 =
    (let r = \<lparr>r_isMuted = isMuted s0, r_isVideoEnabled = isVideoEnabled s0\<rparr>;
         s = (stopSession s0)\<lparr>errorMsg := None, status := Connecting\<rparr>
     in if apiKey env = None \<or> apiKey env = Some []
        then s\<lparr>errorMsg := Some ''API Key is missing. Please check your configuration.'',
               status := ErrorStatus\<rparr>
        else
          let ic = nextId s; oc = Suc ic; g = Suc oc;
              s1 = s\<lparr>inputAudioContextRef := Some ic, outputAudioContextRef := Some oc,
                     gainNodeRef := Some g, openContexts := openContexts s \<union> {ic, oc},
                     nextId := Suc g\<rparr>
          in case userMedia env of
               Inl m \<Rightarrow>
                 s1\<lparr>errorMsg := Some (or_default m ''Failed to initialize session.''),
                    status := ErrorStatus\<rparr>
             | Inr ts \<Rightarrow>
                 let p = nextId s1
                 in s1\<lparr>streamRef := Some ts, liveTracks := liveTracks s1 \<union> set ts,
                       nextStartTimeRef := 0, sessions := (sessions s1)(p \<mapsto> r),
                       sessionPromiseRef := Some p, nextId := Suc p\<rparr>)"

subsection \<open>Channel callbacks other than \<open>onmessage\<close>\<close>

text \<open>Lines 250-288, the part that installs the timer.\<close>

definition startVideoStream :: "render \<Rightarrow> session \<Rightarrow> session" where
  "startVideoStream r s =
    (let s1 = (case videoIntervalRef s of
                 None \<Rightarrow> s
               | Some i \<Rightarrow> if i \<noteq> 0 then s\<lparr>intervals := (intervals s)(i := None)\<rparr> else s);
         i = nextId s1
     in s1\<lparr>videoIntervalRef := Some i, intervals := (intervals s1)(i \<mapsto> r_isVideoEnabled r),
           nextId := Suc i\<rparr>)"

text \<open>Lines 147-183.\<close>

definition onopen :: "render \<Rightarrow> session \<Rightarrow> session" where
  "onopen r s =
    (let s1 = s\<lparr>status := Connected\<rparr>
     in if inputAudioContextRef s1 = None \<or> streamRef s1 = None then s1
        else
          let p = nextId s1;
              s2 = s1\<lparr>processorRef := Some p, processors := (processors s1)(p \<mapsto> r_isMuted r),
                     nextId := Suc p\<rparr>
          in startVideoStream r s2)"

text \<open>Lines 220-223.\<close>

definition onclose :: "session \<Rightarrow> session" where
  "onclose s = stopSession s"

text \<open>Lines 224-230.\<close>

definition onerror :: "session \<Rightarrow> session" where
  "onerror s = stopSession (s\<lparr>errorMsg := Some ''Connection error. Please try again.''\<rparr>)"

text \<open>Lines 234-239: the handler of a rejected session promise.\<close>

definition connect_rejected :: "string \<Rightarrow> session \<Rightarrow> session" where
  "connect_rejected m s =
     stopSession (s\<lparr>errorMsg := Some (or_default m ''Failed to connect to Gemini.''),
                    status := ErrorStatus\<rparr>)"

subsection \<open>Capture: \<open>onaudioprocess\<close> (lines 157-176) and the video timer\<close>

text \<open>Lines 163-166. The loop adds the squares from the left.\<close>

definition volume :: "real list \<Rightarrow> level" where
  "volume inputData =
     (if inputData = [] then NaN
      else Level (min (sqrt (foldl (\<lambda>sum x. sum + x * x) 0 inputData
                              / real (length inputData)) * 5) 1))"

text \<open>
  Handing a blob to the outbound channel:
  \<open>sessionPromiseRef.current?.then(session => session.sendRealtimeInput({ media }))\<close>.
\<close>

definition submit :: "blob \<Rightarrow> session \<Rightarrow> session" where
  "submit b s = (case sessionPromiseRef s of
       None \<Rightarrow> s
     | Some p \<Rightarrow> s\<lparr>outbound := outbound s @ [(p, b)]\<rparr>)"

text \<open>
  \<open>createPcmBlob\<close> comes from utils/audioUtils, which is not among the sources: it is a
  parameter. The second argument is the \<open>isMuted\<close> that the handler closes over.
\<close>

definition onaudioprocess :: "(real list \<Rightarrow> blob) \<Rightarrow> bool \<Rightarrow> real list \<Rightarrow> session \<Rightarrow> session" where
  "onaudioprocess createPcmBlob muted inputData s =
     (if muted then s
      else submit (createPcmBlob inputData) (s\<lparr>volumeLevel := volume inputData\<rparr>))"

text \<open>
  The timer callback of lines 253-287. \<open>frame\<close> is the base64 text of the JPEG, \<open>None\<close>
  when one of the early returns is taken (no video or canvas element, no 2d context, a
  video of width 0) or \<open>toBlob\<close> gives \<open>null\<close>. The first argument is the
  \<open>isVideoEnabled\<close> that the callback closes over.
\<close>

definition video_tick :: "bool \<Rightarrow> string option \<Rightarrow> session \<Rightarrow> session" where
  "video_tick enabled frame s =
     (if \<not> enabled then s
      else case frame of
             None \<Rightarrow> s
           | Some d \<Rightarrow> submit \<lparr>data = d, mimeType = ''image/jpeg''\<rparr> s)"

subsection \<open>Playback: \<open>onmessage\<close> (lines 184-219)\<close>

text \<open>The test of line 187; an empty string is falsy.\<close>

definition audio_branch :: "server_message \<Rightarrow> session \<Rightarrow> bool" where
  "audio_branch msg s =
     (case base64Audio msg of
        None \<Rightarrow> False
      | Some b \<Rightarrow> b \<noteq> [] \<and> outputAudioContextRef s \<noteq> None \<and> gainNodeRef s \<noteq> None)"

text \<open>Line 190.\<close>

definition sync_start :: "real \<Rightarrow> session \<Rightarrow> session" where
  "sync_start now s = s\<lparr>nextStartTimeRef := max (nextStartTimeRef s) now\<rparr>"

text \<open>
  Lines 192-210, from the outcome of lines 193-194 on. An error of the decoding is caught
  and logged. Otherwise a node is created; \<open>source.connect(gainNodeRef.current)\<close> raises
  a \<open>TypeError\<close> when the reference is \<open>null\<close> by now, and \<open>source.start(when)\<close> a
  \<open>RangeError\<close> for a negative \<open>when\<close>; both are caught by the same \<open>catch\<close>.
\<close>

definition schedule :: "js_error + audio_buffer \<Rightarrow> session \<Rightarrow> session" where
  "schedule res s =
     (case res of
        Inl e \<Rightarrow> s
      | Inr buf \<Rightarrow>
          let h = nextId s;
              n = \<lparr>buffer = buf, start_time = None, stop_called = False, ended = False\<rparr>;
              s1 = s\<lparr>nodes := (nodes s)(h \<mapsto> n), nextId := Suc h\<rparr>
          in if gainNodeRef s1 = None then s1
             else if nextStartTimeRef s1 < 0 then s1
             else s1\<lparr>nodes := (nodes s1)(h \<mapsto> n\<lparr>start_time := Some (nextStartTimeRef s1)\<rparr>),
                     nextStartTimeRef := nextStartTimeRef s1 + duration buf,
                     sourcesRef := set_add h (sourcesRef s1)\<rparr>)"

text \<open>
  Lines 213-218, when the flag is set. The first component is the exception that leaves
  the handler, if any.
\<close>

definition interrupt :: "session \<Rightarrow> js_error option \<times> session" where
  "interrupt s =
     (case stop_each (sourcesRef s) (nodes s) of
        (Some e, ns) \<Rightarrow> (Some e, s\<lparr>nodes := ns\<rparr>)
      | (None, ns) \<Rightarrow> (None, s\<lparr>nodes := ns, sourcesRef := [], nextStartTimeRef := 0\<rparr>))"

text \<open>
  The handler run from its first line to its last with no other callback in between.
  \<open>decode\<close> stands for lines 193-194, \<open>base64ToBytes\<close> followed by \<open>decodeAudioData\<close> at
  the output sample rate, both of utils/audioUtils, which is not among the sources; \<open>now\<close>
  is \<open>ctx.currentTime\<close>.
\<close>

definition onmessage ::
  "(string \<Rightarrow> js_error + audio_buffer) \<Rightarrow> server_message \<Rightarrow> real \<Rightarrow> session \<Rightarrow> js_error option \<times> session" where
  "onmessage decode msg now s =
     (let s1 = (case base64Audio msg of
                  None \<Rightarrow> s
                | Some b \<Rightarrow> if audio_branch msg s then schedule (decode b) (sync_start now s)
                            else s)
      in if interrupted msg then interrupt s1 else (None, s1))"

text \<open>A run of messages, each handled to its end before the next arrives.\<close>

fun onmessages ::
  "(string \<Rightarrow> js_error + audio_buffer) \<Rightarrow> (server_message \<times> real) list \<Rightarrow> session \<Rightarrow> session" where
  "onmessages decode [] s = s"
| "onmessages decode ((msg, now) # ms) s = onmessages decode ms (snd (onmessage decode msg now s))"

text \<open>
  The same handler in the two steps the event loop sees: up to the \<open>await\<close> of line 194,
  where the call is suspended with the outcome it will resume with, and from there to
  the end. A message that does not take the audio branch is handled in one step.
\<close>

definition message_arrives ::
  "(string \<Rightarrow> js_error + audio_buffer) \<Rightarrow> server_message \<Rightarrow> real \<Rightarrow> session \<Rightarrow> session" where
  "message_arrives decode msg now s =
     (case base64Audio msg of
        None \<Rightarrow> if interrupted msg then snd (interrupt s) else s
      | Some b \<Rightarrow>
          if audio_branch msg s
          then (sync_start now s)\<lparr>pending := (pending s)(nextPending s \<mapsto> (decode b, interrupted msg)),
                                  nextPending := Suc (nextPending s)\<rparr>
          else if interrupted msg then snd (interrupt s) else s)"

definition decode_done :: "nat \<Rightarrow> session \<Rightarrow> session" where
  "decode_done k s =
     (case pending s k of
        None \<Rightarrow> s
      | Some (res, intr) \<Rightarrow>
          let s1 = schedule res (s\<lparr>pending := (pending s)(k := None)\<rparr>)
          in if intr then snd (interrupt s1) else s1)"

text \<open>
  Playback of a started node reaching the end of its buffer, and the \<open>onended\<close> callback
  of lines 201-203 that the browser delivers afterwards.
\<close>

definition playback_ends :: "nat \<Rightarrow> session \<Rightarrow> session" where
  "playback_ends h s =
     (case nodes s h of
        None \<Rightarrow> s
      | Some n \<Rightarrow> if start_time n \<noteq> None \<and> \<not> stop_called n
                  then s\<lparr>nodes := (nodes s)(h \<mapsto> n\<lparr>ended := True\<rparr>)\<rparr> else s)"

definition onended :: "nat \<Rightarrow> session \<Rightarrow> session" where
  "onended h s = s\<lparr>sourcesRef := set_delete h (sourcesRef s)\<rparr>"

subsection \<open>The event loop\<close>

text \<open>
  Everything that can happen to a mounted component. The buttons are those of the
  control panel (src/unnamed/part_000): Start is shown unless the status is connected or
  connecting, End otherwise, and the two toggles are disabled unless connected. The
  dismiss button is the one of the error overlay (lines 328-333).
\<close>

datatype event =
    ClickStart start_env
  | ClickEnd
  | ToggleMute
  | ToggleVideo
  | DismissError
  | OnOpen nat
  | OnMessage server_message real
  | DecodeDone nat
  | OnClose
  | OnError
  | ConnectRejected string
  | AudioProcess nat "real list"
  | VideoTick nat "string option"
  | PlaybackEnds nat
  | OnEnded nat

fun step ::
  "(real list \<Rightarrow> blob) \<Rightarrow> (string \<Rightarrow> js_error + audio_buffer) \<Rightarrow> event \<Rightarrow> session \<Rightarrow> session" where
  "step enc dec (ClickStart env) s =
     (if status s = Connected \<or> status s = Connecting then s else startSession env s)"
| "step enc dec ClickEnd s =
     (if status s = Connected \<or> status s = Connecting then stopSession s else s)"
| "step enc dec ToggleMute s =
     (if status s = Connected then s\<lparr>isMuted := \<not> isMuted s\<rparr> else s)"
| "step enc dec ToggleVideo s =
     (if status s = Connected then s\<lparr>isVideoEnabled := \<not> isVideoEnabled s\<rparr> else s)"
| "step enc dec DismissError s =
     (if status s = ErrorStatus then s\<lparr>status := Disconnected\<rparr> else s)"
| "step enc dec (OnOpen p) s = (case sessions s p of None \<Rightarrow> s | Some r \<Rightarrow> onopen r s)"
| "step enc dec (OnMessage msg now) s = message_arrives dec msg now s"
| "step enc dec (DecodeDone k) s = decode_done k s"
| "step enc dec OnClose s = onclose s"
| "step enc dec OnError s = onerror s"
| "step enc dec (ConnectRejected m) s = connect_rejected m s"
| "step enc dec (AudioProcess p w) s =
     (case processors s p of None \<Rightarrow> s | Some m \<Rightarrow> onaudioprocess enc m w s)"
| "step enc dec (VideoTick i frame) s =
     (case intervals s i of None \<Rightarrow> s | Some v \<Rightarrow> video_tick v frame s)"
| "step enc dec (PlaybackEnds h) s = playback_ends h s"
| "step enc dec (OnEnded h) s = onended h s"

fun run ::
  "(real list \<Rightarrow> blob) \<Rightarrow> (string \<Rightarrow> js_error + audio_buffer) \<Rightarrow> event list \<Rightarrow> session \<Rightarrow> session" where
  "run enc dec [] s = s"
| "run enc dec (e # es) s = run enc dec es (step enc dec e s)"

subsection \<open>Predicates on states, and example states\<close>

text \<open>A node that was started, and a node that plays no more.\<close>

definition started :: "source_node \<Rightarrow> bool" where
  "started n = (start_time n \<noteq> None)"

definition halted :: "source_node \<Rightarrow> bool" where
  "halted n = (stop_called n \<or> ended n)"

text \<open>
  An invariant of the component, kept by every event: every handle of the live set names
  a node that was created before and started, object numbers are positive, and so is the
  timer held.
\<close>

definition well_formed :: "session \<Rightarrow> bool" where
  "well_formed s = ((\<forall>h\<in>set (sourcesRef s). h < nextId s \<and>
              (case nodes s h of None \<Rightarrow> False | Some n \<Rightarrow> started n))
           \<and> 0 < nextId s \<and> videoIntervalRef s \<noteq> Some 0)"

text \<open>
  Modelled from the spec: the Sample Decoder of utils/audioUtils, which is not among the
  sources. It fails when the payload length is not a whole multiple of the sample width
  (two bytes); the duration of the chunk is its sample count over the declared rate. The
  payload is read one character per byte.
\<close>

definition spec_decode :: "nat \<Rightarrow> string \<Rightarrow> js_error + audio_buffer" where
  "spec_decode rate payload =
     (if length payload mod 2 \<noteq> 0 then Inl DecodeError
      else Inr \<lparr>buf_length = length payload div 2, buf_sampleRate = rate\<rparr>)"

text \<open>
  An environment in which \<open>startSession\<close> goes through, and the states of one session:
  after the click on Start, after \<open>onopen\<close>, and after a first chunk of half a second
  that arrived at clock time 2.
\<close>

definition env_ok :: start_env where
  "env_ok = \<lparr>apiKey = Some ''key'', userMedia = Inr [100, 101]\<rparr>"

definition connecting_example :: session where
  "connecting_example = \<lparr> status = Connecting, errorMsg = None, isMuted = False,
     isVideoEnabled = True, volumeLevel = Level 0,
     inputAudioContextRef = Some 1, outputAudioContextRef = Some 2,
     streamRef = Some [100, 101], processorRef = None, nextStartTimeRef = 0,
     videoIntervalRef = None, gainNodeRef = Some 3, sessionPromiseRef = Some 4,
     sourcesRef = [], nextId = 5, openContexts = {1, 2}, liveTracks = {100, 101},
     intervals = Map.empty, processors = Map.empty, nodes = Map.empty,
     sessions = [4 \<mapsto> \<lparr>r_isMuted = False, r_isVideoEnabled = True\<rparr>], outbound = [],
     pending = Map.empty, nextPending = 0 \<rparr>"

definition connected_example :: session where
  "connected_example = connecting_example \<lparr> status := Connected, processorRef := Some 5,
     videoIntervalRef := Some 6, nextId := 7, intervals := [6 \<mapsto> True],
     processors := [5 \<mapsto> False] \<rparr>"

definition playing_example :: session where
  "playing_example = connected_example \<lparr> nextStartTimeRef := 5 / 2, sourcesRef := [7],
     nextId := 8,
     nodes := [7 \<mapsto> \<lparr>buffer = \<lparr>buf_length = 5, buf_sampleRate = 10\<rparr>,
                      start_time = Some 2, stop_called = False, ended = False\<rparr>] \<rparr>"

text \<open>
  A stand-in for \<open>createPcmBlob\<close> in examples: two bytes for each sample, tagged with
  the input rate.
\<close>

definition pcm_example :: "real list \<Rightarrow> blob" where
  "pcm_example w =
     \<lparr>data = replicate (2 * length w) (CHR ''0''), mimeType = ''audio/pcm;rate=16000''\<rparr>"

text \<open>
  The connected session after the user switched mute on and video off, and the session
  the user gets by then clicking End and Start: it is started, and opens, while muted.
\<close>

definition toggled_example :: session where
  "toggled_example = connected_example \<lparr> isMuted := True, isVideoEnabled := False \<rparr>"

definition muted_example :: session where
  "muted_example = \<lparr> status = Connected, errorMsg = None, isMuted = True,
     isVideoEnabled = False, volumeLevel = Level 0,
     inputAudioContextRef = Some 7, outputAudioContextRef = Some 8,
     streamRef = Some [100, 101], processorRef = Some 11, nextStartTimeRef = 0,
     videoIntervalRef = Some 12, gainNodeRef = Some 9, sessionPromiseRef = Some 10,
     sourcesRef = [], nextId = 13, openContexts = {7, 8}, liveTracks = {100, 101},
     intervals = [12 \<mapsto> False], processors = [11 \<mapsto> True], nodes = Map.empty,
     sessions = [4 \<mapsto> \<lparr>r_isMuted = False, r_isVideoEnabled = True\<rparr>,
                 10 \<mapsto> \<lparr>r_isMuted = True, r_isVideoEnabled = False\<rparr>],
     outbound = [], pending = Map.empty, nextPending = 0 \<rparr>"

text \<open>
  A message whose audio branch is taken and whose payload decodes to \<open>buf\<close>; a message
  whose payload does not decode.
\<close>

definition accepted ::
  "(string \<Rightarrow> js_error + audio_buffer) \<Rightarrow> server_message \<Rightarrow> session \<Rightarrow> audio_buffer \<Rightarrow> bool" where
  "accepted decode msg s buf =
     (audio_branch msg s \<and>
      (case base64Audio msg of None \<Rightarrow> False | Some b \<Rightarrow> decode b = Inr buf))"


text \<open>Handle \<open>h\<close> is in the live set, bound to \<open>buf\<close>, started at \<open>t\<close> and playing.\<close>

definition scheduled_at :: "session \<Rightarrow> nat \<Rightarrow> real \<Rightarrow> audio_buffer \<Rightarrow> bool" where
  "scheduled_at s h t buf =
     (h \<in> set (sourcesRef s) \<and>
      nodes s h = Some \<lparr>buffer = buf, start_time = Some t, stop_called = False, ended = False\<rparr>)"

text \<open>
  Three chunks of 0.5, 0.3 and 0.2 seconds at ten samples a second, and the buffers they
  decode to.
\<close>

definition chunk_a :: server_message where
  "chunk_a = \<lparr>base64Audio = Some ''0123456789'', interrupted = False\<rparr>"

definition chunk_b :: server_message where
  "chunk_b = \<lparr>base64Audio = Some ''012345'', interrupted = False\<rparr>"

definition chunk_c :: server_message where
  "chunk_c = \<lparr>base64Audio = Some ''0123'', interrupted = False\<rparr>"

definition buf_a :: audio_buffer where
  "buf_a = \<lparr>buf_length = 5, buf_sampleRate = 10\<rparr>"

definition buf_b :: audio_buffer where
  "buf_b = \<lparr>buf_length = 3, buf_sampleRate = 10\<rparr>"

definition buf_c :: audio_buffer where
  "buf_c = \<lparr>buf_length = 2, buf_sampleRate = 10\<rparr>"

text \<open>Lines 187-211 of the handler: what it does before it looks at the interruption flag.\<close>

definition audio_part ::
  "(string \<Rightarrow> js_error + audio_buffer) \<Rightarrow> server_message \<Rightarrow> real \<Rightarrow> session \<Rightarrow> session" where
  "audio_part decode msg now s =
     (case base64Audio msg of
        None \<Rightarrow> s
      | Some b \<Rightarrow> if audio_branch msg s then schedule (decode b) (sync_start now s) else s)"

text \<open>
  The playing session after its chunk has played to the end, with the \<open>onended\<close>
  callback still to come; a message that only interrupts; a chunk that interrupts as
  well; and the connected session with the handler of that chunk suspended at its
  \<open>await\<close>.
\<close>

definition finished_example :: session where
  "finished_example = playing_example \<lparr>
     nodes := [7 \<mapsto> \<lparr>buffer = \<lparr>buf_length = 5, buf_sampleRate = 10\<rparr>,
                      start_time = Some 2, stop_called = False, ended = True\<rparr>] \<rparr>"

definition interruption :: server_message where
  "interruption = \<lparr>base64Audio = None, interrupted = True\<rparr>"

definition interrupting_chunk :: server_message where
  "interrupting_chunk = \<lparr>base64Audio = Some ''0123456789'', interrupted = True\<rparr>"

definition suspended_example :: session where
  "suspended_example = connected_example \<lparr> nextStartTimeRef := 2,
     pending := [0 \<mapsto> (Inr buf_a, True)], nextPending := 1 \<rparr>"

text \<open>
  The events that set the cursor back to 0: a click on Start that gets as far as line
  134, and the end of a handler whose message carries the interruption flag (line 217),
  which is the arrival of the message when it takes no audio branch and the resumption
  of the handler otherwise. The events that write the cursor at all.
\<close>

fun resets_cursor :: "event \<Rightarrow> session \<Rightarrow> bool" where
  "resets_cursor (ClickStart env) s =
     (status s \<noteq> Connected \<and> status s \<noteq> Connecting
      \<and> apiKey env \<noteq> None \<and> apiKey env \<noteq> Some []
      \<and> (case userMedia env of Inl m \<Rightarrow> False | Inr ts \<Rightarrow> True))"
| "resets_cursor (OnMessage msg now) s = (interrupted msg \<and> \<not> audio_branch msg s)"
| "resets_cursor (DecodeDone k) s =
     (case pending s k of None \<Rightarrow> False | Some (res, intr) \<Rightarrow> intr)"
| "resets_cursor e s = False"

fun touches_cursor :: "event \<Rightarrow> bool" where
  "touches_cursor (ClickStart env) = True"
| "touches_cursor (OnMessage msg now) = True"
| "touches_cursor (DecodeDone k) = True"
| "touches_cursor e = False"

text \<open>
  The playing session after a further chunk of 0.3 seconds arrived at clock time 3 and
  its handler is suspended at the \<open>await\<close>.
\<close>

definition overlapping_example :: session where
  "overlapping_example = playing_example \<lparr> nextStartTimeRef := 3,
     pending := [0 \<mapsto> (Inr buf_b, False)], nextPending := 1 \<rparr>"

section \<open>Properties\<close>

subsection \<open>The example states are states of the component\<close>

lemma start_example: "startSession env_ok initial = connecting_example"
  by (simp add: startSession_def stopSession_def initial_def env_ok_def
      connecting_example_def Let_def insert_commute eval_nat_numeral)

lemma open_example: "step enc dec (OnOpen 4) connecting_example = connected_example"
  by (simp add: onopen_def startVideoStream_def connecting_example_def
      connected_example_def Let_def eval_nat_numeral)

lemma decode_example:
  "spec_decode 10 ''0123456789'' = Inr \<lparr>buf_length = 5, buf_sampleRate = 10\<rparr>"
  by (simp add: spec_decode_def)

lemma play_example:
  "onmessage (spec_decode 10) \<lparr>base64Audio = Some ''0123456789'', interrupted = False\<rparr> 2
     connected_example = (None, playing_example)"
  by (simp add: onmessage_def audio_branch_def sync_start_def schedule_def decode_example
      connected_example_def connecting_example_def playing_example_def Let_def set_add_def
      duration_def)

subsection \<open>Stopping playback handles\<close>

lemma stop_caught_idem: "stop_caught (stop_caught n) = stop_caught n"
  by (simp add: stop_caught_def stop_def split: option.splits)

lemma stop_caught_fields:
  "start_time (stop_caught n) = start_time n"
  "buffer (stop_caught n) = buffer n"
  "ended (stop_caught n) = ended n"
  by (simp_all add: stop_caught_def stop_def split: option.splits)

lemma stop_caught_halted: "started n \<Longrightarrow> halted (stop_caught n)"
  by (auto simp: stop_caught_def stop_def started_def halted_def)

lemma stop_caught_started: "started (stop_caught n) = started n"
  by (simp add: started_def stop_caught_fields)

lemma stop_ignoring_apply:
  "stop_ignoring hs ns h = (if h \<in> set hs then map_option stop_caught (ns h) else ns h)"
proof (induction hs arbitrary: ns)
  case Nil
  show ?case by simp
next
  case (Cons a hs)
  let ?ns' = "case ns a of None \<Rightarrow> ns | Some n \<Rightarrow> ns(a \<mapsto> stop_caught n)"
  have step: "?ns' h = (if h = a then map_option stop_caught (ns h) else ns h)"
    by (cases "ns a") simp_all
  have "stop_ignoring (a # hs) ns h = stop_ignoring hs ?ns' h"
    by simp
  also have "\<dots> = (if h \<in> set hs then map_option stop_caught (?ns' h) else ?ns' h)"
    by (rule Cons.IH)
  also have "\<dots> = (if h \<in> set (a # hs) then map_option stop_caught (ns h) else ns h)"
  proof (cases "h = a")
    case True
    then show ?thesis
      unfolding step by (cases "ns a") (simp_all add: stop_caught_idem)
  next
    case False
    then show ?thesis
      unfolding step by simp
  qed
  finally show ?case .
qed

text \<open>Where every handle was started, the loop without \<open>try\<close> does what the one with it does.\<close>

lemma stop_each_started:
  "\<forall>h\<in>set hs. \<forall>n. ns h = Some n \<longrightarrow> started n \<Longrightarrow>
   stop_each hs ns = (None, stop_ignoring hs ns)"
proof (induction hs arbitrary: ns)
  case Nil
  show ?case by simp
next
  case (Cons a hs)
  show ?case
  proof (cases "ns a")
    case None
    with Cons show ?thesis by simp
  next
    case (Some m)
    with Cons.prems have "started m" by simp
    then have st: "stop m = Inr (stop_caught m)"
      by (simp add: stop_caught_def stop_def started_def split: option.splits)
    have "stop_each hs (ns(a \<mapsto> stop_caught m))
            = (None, stop_ignoring hs (ns(a \<mapsto> stop_caught m)))"
      by (rule Cons.IH) (use Cons.prems \<open>started m\<close> in \<open>auto simp: stop_caught_started\<close>)
    with Some st show ?thesis by simp
  qed
qed

subsection \<open>Teardown\<close>

lemma stopSession_refs:
  "inputAudioContextRef (stopSession s) = None"
  "outputAudioContextRef (stopSession s) = None"
  "streamRef (stopSession s) = None"
  "processorRef (stopSession s) = None"
  "gainNodeRef (stopSession s) = None"
  "sessionPromiseRef (stopSession s) = None"
  "sourcesRef (stopSession s) = []"
  "volumeLevel (stopSession s) = Level 0"
  "status (stopSession s) = Disconnected"
  by (simp_all add: stopSession_def Let_def split: option.splits)

lemma stopSession_kept:
  "nextStartTimeRef (stopSession s) = nextStartTimeRef s"
  "errorMsg (stopSession s) = errorMsg s"
  "isMuted (stopSession s) = isMuted s"
  "isVideoEnabled (stopSession s) = isVideoEnabled s"
  "nextId (stopSession s) = nextId s"
  "sessions (stopSession s) = sessions s"
  "outbound (stopSession s) = outbound s"
  "pending (stopSession s) = pending s"
  "nextPending (stopSession s) = nextPending s"
  by (simp_all add: stopSession_def Let_def split: option.splits)

lemma stopSession_interval:
  "videoIntervalRef (stopSession s) = (if videoIntervalRef s = Some 0 then Some 0 else None)"
  by (simp add: stopSession_def Let_def split: option.splits)

lemma stopSession_nodes: "nodes (stopSession s) = stop_ignoring (sourcesRef s) (nodes s)"
  by (simp add: stopSession_def Let_def split: option.splits)

lemma stopSession_contexts:
  "openContexts (stopSession s) =
     openContexts s - set_option (inputAudioContextRef s) - set_option (outputAudioContextRef s)"
  by (auto simp add: stopSession_def Let_def split: option.splits)

lemma stopSession_tracks:
  "liveTracks (stopSession s) =
     liveTracks s - (case streamRef s of None \<Rightarrow> {} | Some ts \<Rightarrow> set ts)"
  by (auto simp add: stopSession_def Let_def split: option.splits)

lemma stopSession_processors:
  "processors (stopSession s) =
     (case processorRef s of None \<Rightarrow> processors s | Some p \<Rightarrow> (processors s)(p := None))"
  by (simp add: stopSession_def Let_def split: option.splits)

lemma stopSession_intervals:
  "intervals (stopSession s) =
     (case videoIntervalRef s of
        None \<Rightarrow> intervals s
      | Some i \<Rightarrow> if i \<noteq> 0 then (intervals s)(i := None) else intervals s)"
  by (simp add: stopSession_def Let_def split: option.splits)

lemma stopSession_nothing_held:
  assumes "inputAudioContextRef s = None" "outputAudioContextRef s = None"
    "streamRef s = None" "processorRef s = None" "sourcesRef s = []"
    "videoIntervalRef s = None \<or> videoIntervalRef s = Some 0"
  shows "stopSession s = s\<lparr>gainNodeRef := None, sessionPromiseRef := None,
           status := Disconnected, volumeLevel := Level 0\<rparr>"
  using assms by (auto simp add: stopSession_def Let_def)

lemma stopSession_twice: "stopSession (stopSession s) = stopSession s"
proof -
  let ?t = "stopSession s"
  have "stopSession ?t = ?t\<lparr>gainNodeRef := None, sessionPromiseRef := None,
           status := Disconnected, volumeLevel := Level 0\<rparr>"
    by (rule stopSession_nothing_held) (simp_all add: stopSession_refs stopSession_interval)
  also have "\<dots> = ?t"
    by (simp add: stopSession_refs [symmetric])
  finally show ?thesis .
qed

lemma stopSession_initial: "stopSession initial = initial"
  by (simp add: stopSession_def initial_def)

lemma stopSession_halts:
  assumes "h \<in> set (sourcesRef s)" "nodes s h = Some n" "started n"
  shows "\<exists>n'. nodes (stopSession s) h = Some n' \<and> halted n'"
  using assms by (simp add: stopSession_nodes stop_ignoring_apply stop_caught_halted)

text \<open>
  C6. \<open>stopSession\<close> is a total function of the state: its only call that can raise,
  \<open>source.stop()\<close>, sits in a \<open>try\<close> whose \<open>catch\<close> ignores the exception. Calling it
  twice gives the state that calling it once gives; on the state in which nothing was
  initialised it changes nothing; and from any state, whichever resources are held,
  it leaves every reference cleared (the timer reference whenever it holds a timer
  number, which is never 0), the audio contexts it held closed, the tracks of the stream
  it held stopped, the script processor it held disconnected, the timer it held
  cancelled, and every started playback handle of the live set stopped or ended.
\<close>

theorem stopSession_idempotent_total_releases:
  "stopSession (stopSession s) = stopSession s
   \<and> stopSession initial = initial
   \<and> inputAudioContextRef (stopSession s) = None
   \<and> outputAudioContextRef (stopSession s) = None
   \<and> streamRef (stopSession s) = None
   \<and> processorRef (stopSession s) = None
   \<and> gainNodeRef (stopSession s) = None
   \<and> sessionPromiseRef (stopSession s) = None
   \<and> sourcesRef (stopSession s) = []
   \<and> (videoIntervalRef s \<noteq> Some 0 \<longrightarrow> videoIntervalRef (stopSession s) = None)
   \<and> (\<forall>c. inputAudioContextRef s = Some c \<or> outputAudioContextRef s = Some c
          \<longrightarrow> c \<notin> openContexts (stopSession s))
   \<and> (\<forall>ts. streamRef s = Some ts \<longrightarrow> set ts \<inter> liveTracks (stopSession s) = {})
   \<and> (\<forall>p. processorRef s = Some p \<longrightarrow> processors (stopSession s) p = None)
   \<and> (\<forall>i. videoIntervalRef s = Some i \<and> i \<noteq> 0 \<longrightarrow> intervals (stopSession s) i = None)
   \<and> (\<forall>h\<in>set (sourcesRef s). \<forall>n. nodes s h = Some n \<and> started n
          \<longrightarrow> (\<exists>n'. nodes (stopSession s) h = Some n' \<and> halted n'))"
proof -
  have contexts: "\<forall>c. inputAudioContextRef s = Some c \<or> outputAudioContextRef s = Some c
          \<longrightarrow> c \<notin> openContexts (stopSession s)"
    by (auto simp: stopSession_contexts)
  have tracks: "\<forall>ts. streamRef s = Some ts \<longrightarrow> set ts \<inter> liveTracks (stopSession s) = {}"
    by (auto simp: stopSession_tracks)
  have procs: "\<forall>p. processorRef s = Some p \<longrightarrow> processors (stopSession s) p = None"
    by (simp add: stopSession_processors)
  have timers: "\<forall>i. videoIntervalRef s = Some i \<and> i \<noteq> 0 \<longrightarrow> intervals (stopSession s) i = None"
    by (simp add: stopSession_intervals)
  have handles: "\<forall>h\<in>set (sourcesRef s). \<forall>n. nodes s h = Some n \<and> started n
          \<longrightarrow> (\<exists>n'. nodes (stopSession s) h = Some n' \<and> halted n')"
    using stopSession_halts by blast
  show ?thesis
    using contexts tracks procs timers handles
    by (simp add: stopSession_twice stopSession_initial stopSession_refs stopSession_interval)
qed

theorem stopSession_idempotent_total_releases_witness:
  "stopSession (stopSession playing_example) = stopSession playing_example
   \<and> videoIntervalRef playing_example = Some 6
   \<and> videoIntervalRef (stopSession playing_example) = None
   \<and> intervals (stopSession playing_example) 6 = None
   \<and> inputAudioContextRef playing_example = Some 1
   \<and> outputAudioContextRef playing_example = Some 2
   \<and> 1 \<notin> openContexts (stopSession playing_example)
   \<and> 2 \<notin> openContexts (stopSession playing_example)
   \<and> streamRef playing_example = Some [100, 101]
   \<and> set [100, 101] \<inter> liveTracks (stopSession playing_example) = {}
   \<and> processorRef playing_example = Some 5
   \<and> processors (stopSession playing_example) 5 = None
   \<and> sourcesRef playing_example = [7]
   \<and> (\<exists>n. nodes playing_example 7 = Some n \<and> started n)
   \<and> (\<exists>n'. nodes (stopSession playing_example) 7 = Some n' \<and> halted n')"
  using stopSession_idempotent_total_releases [of playing_example]
  by (simp add: playing_example_def connected_example_def connecting_example_def started_def)

subsection \<open>Channel failures\<close>

text \<open>
  C5. A rejected session promise while connecting, and an \<open>onerror\<close> notification while
  connected, both end with the status disconnected, not error: \<open>stopSession\<close> runs last
  and sets the status. The message is retained.
\<close>

theorem channel_failure_ends_disconnected:
  "status (connect_rejected ''network down'' connecting_example) = Disconnected
   \<and> errorMsg (connect_rejected ''network down'' connecting_example) = Some ''network down''
   \<and> status (onerror connected_example) = Disconnected
   \<and> errorMsg (onerror connected_example) = Some ''Connection error. Please try again.''"
  by (simp add: connect_rejected_def onerror_def or_default_def stopSession_refs
      stopSession_kept)

subsection \<open>Capture ticks\<close>

lemma volume_example: "volume [1, 1] = Level 1"
  by (simp add: volume_def)

text \<open>The meter stays within 0 and 1 and reads 0 on silence.\<close>

lemma volume_range:
  assumes "w \<noteq> []"
  shows "\<exists>v. volume w = Level v \<and> 0 \<le> v \<and> v \<le> 1"
proof -
  have "0 \<le> foldl (\<lambda>sum x. sum + x * x) a w" if "0 \<le> a" for a :: real
    using that by (induction w arbitrary: a) simp_all
  then have "0 \<le> foldl (\<lambda>sum x. sum + x * x) 0 w / real (length w)"
    by simp
  then show ?thesis
    using assms by (simp add: volume_def)
qed

lemma volume_silent:
  assumes "w \<noteq> []" "\<forall>x\<in>set w. x = 0"
  shows "volume w = Level 0"
proof -
  have "foldl (\<lambda>sum x. sum + x * x) a w = a" for a :: real
    using assms(2) by (induction w arbitrary: a) simp_all
  then show ?thesis
    using assms(1) by (simp add: volume_def)
qed

text \<open>
  C2, as the code has it. A capture tick delivered to a handler whose mute flag is clear
  publishes the meter's reading of the window and hands the encoded window to the
  outbound channel (when there is one); delivered to a handler whose mute flag is set, it
  changes nothing: no reading is published and nothing is sent.
\<close>

theorem capture_tick_gated_by_mute:
  assumes "processors s p = Some muted"
  shows "(muted \<longrightarrow> step enc dec (AudioProcess p w) s = s)
       \<and> (\<not> muted \<longrightarrow>
            volumeLevel (step enc dec (AudioProcess p w) s) = volume w
          \<and> outbound (step enc dec (AudioProcess p w) s)
              = outbound s @ (case sessionPromiseRef s of None \<Rightarrow> [] | Some q \<Rightarrow> [(q, enc w)]))"
  using assms by (simp add: onaudioprocess_def submit_def split: option.splits)

theorem capture_tick_gated_by_mute_witness:
  "processors muted_example 11 = Some True
   \<and> step pcm_example (spec_decode 10) (AudioProcess 11 [1, 1]) muted_example = muted_example
   \<and> processors connected_example 5 = Some False
   \<and> volumeLevel (step pcm_example (spec_decode 10) (AudioProcess 5 [1, 1]) connected_example)
        = Level 1
   \<and> outbound (step pcm_example (spec_decode 10) (AudioProcess 5 [1, 1]) connected_example)
        = [(4, pcm_example [1, 1])]"
proof -
  have m: "processors muted_example 11 = Some True"
    by (simp add: muted_example_def)
  have c: "processors connected_example 5 = Some False"
    by (simp add: connected_example_def)
  show ?thesis
    using capture_tick_gated_by_mute [OF m, of pcm_example "spec_decode 10" "[1, 1]"]
      capture_tick_gated_by_mute [OF c, of pcm_example "spec_decode 10" "[1, 1]"] m c
    by (simp add: volume_example connected_example_def connecting_example_def)
qed

text \<open>
  C2, as the spec has it, fails: in the session started while muted, a capture tick
  leaves the published volume at 0, where the meter reads 1 on the window.
\<close>

theorem muted_tick_publishes_no_volume:
  "volumeLevel (step pcm_example (spec_decode 10) (AudioProcess 11 [1, 1]) muted_example)
     \<noteq> volume [1, 1]"
  by (simp add: onaudioprocess_def muted_example_def volume_example)

subsection \<open>The flags read by the ticks\<close>

lemma toggled_example_run:
  "run enc dec [ClickStart env_ok, OnOpen 4, ToggleMute, ToggleVideo] initial = toggled_example"
proof -
  have "status initial = Disconnected"
    by (simp add: initial_def)
  then have 1: "step enc dec (ClickStart env_ok) initial = connecting_example"
    by (simp add: start_example)
  have 2: "step enc dec ToggleMute connected_example = connected_example\<lparr>isMuted := True\<rparr>"
    by (simp add: connected_example_def connecting_example_def)
  have 3: "step enc dec ToggleVideo (connected_example\<lparr>isMuted := True\<rparr>) = toggled_example"
    by (simp add: toggled_example_def connected_example_def connecting_example_def)
  show ?thesis
    by (simp only: run.simps 1 open_example 2 3)
qed

lemma muted_example_run:
  "run enc dec [ClickEnd, ClickStart env_ok, OnOpen 10] toggled_example = muted_example"
  by (simp add: toggled_example_def connected_example_def connecting_example_def env_ok_def
      stopSession_def startSession_def onopen_def startVideoStream_def muted_example_def
      Let_def insert_commute)

text \<open>The toggles replace the state variable; the installed handlers keep what they closed over.\<close>

lemma toggle_keeps_handlers:
  "processors (step enc dec ToggleMute s) = processors s"
  "intervals (step enc dec ToggleVideo s) = intervals s"
  by simp_all

text \<open>
  C3 on the code. A session is started unmuted with video on and opens; the user then
  switches mute on and video off. The next capture tick is still metered, encoded and
  sent, and the next video tick still sends its frame. The other way round: in the session
  that was started while muted, the user switches mute off; the next capture tick sends
  nothing.
\<close>

theorem mute_toggle_not_seen_by_ticks:
  "isMuted toggled_example \<and> \<not> isVideoEnabled toggled_example
   \<and> outbound (step pcm_example (spec_decode 10) (AudioProcess 5 [1, 1]) toggled_example)
        = [(4, pcm_example [1, 1])]
   \<and> volumeLevel (step pcm_example (spec_decode 10) (AudioProcess 5 [1, 1]) toggled_example)
        = Level 1
   \<and> outbound (step pcm_example (spec_decode 10) (VideoTick 6 (Some ''frame'')) toggled_example)
        = [(4, \<lparr>data = ''frame'', mimeType = ''image/jpeg''\<rparr>)]
   \<and> \<not> isMuted (step pcm_example (spec_decode 10) ToggleMute muted_example)
   \<and> processors (step pcm_example (spec_decode 10) ToggleMute muted_example) 11 = Some True
   \<and> outbound (run pcm_example (spec_decode 10) [ToggleMute, AudioProcess 11 [1, 1]]
          muted_example) = []"
  by (simp add: toggled_example_def connected_example_def connecting_example_def
      muted_example_def onaudioprocess_def video_tick_def submit_def volume_example)

subsection \<open>Handling one message\<close>

lemma duration_nonneg: "0 \<le> duration b"
  by (simp add: duration_def)


lemma schedule_Inr:
  assumes "gainNodeRef s \<noteq> None" "0 \<le> nextStartTimeRef s"
  shows "schedule (Inr buf) s =
     s\<lparr>nextStartTimeRef := nextStartTimeRef s + duration buf,
       nodes := (nodes s)(nextId s \<mapsto> \<lparr>buffer = buf,
                 start_time = Some (nextStartTimeRef s),
                 stop_called = False, ended = False\<rparr>),
       nextId := Suc (nextId s),
       sourcesRef := set_add (nextId s) (sourcesRef s)\<rparr>"
  using assms by (cases "gainNodeRef s") (simp_all add: schedule_def Let_def)


lemma accepted_parts:
  assumes "accepted dec msg s buf"
  obtains b where "base64Audio msg = Some b" "dec b = Inr buf" "audio_branch msg s"
    "gainNodeRef s \<noteq> None"
  using assms by (auto simp: accepted_def audio_branch_def split: option.splits)

lemma onmessage_accepted_any:
  assumes "accepted dec msg s buf" "0 \<le> now"
  shows "onmessage dec msg now s =
     (let s1 = s\<lparr>nextStartTimeRef := max (nextStartTimeRef s) now + duration buf,
              nodes := (nodes s)(nextId s \<mapsto> \<lparr>buffer = buf,
                 start_time = Some (max (nextStartTimeRef s) now),
                 stop_called = False, ended = False\<rparr>),
              nextId := Suc (nextId s),
              sourcesRef := set_add (nextId s) (sourcesRef s)\<rparr>
      in if interrupted msg then interrupt s1 else (None, s1))"
proof -
  from assms(1) obtain b where b: "base64Audio msg = Some b" "dec b = Inr buf"
    and br: "audio_branch msg s" and g0: "gainNodeRef s \<noteq> None"
    by (rule accepted_parts)
  from g0 have g: "gainNodeRef (sync_start now s) \<noteq> None"
    by (simp add: sync_start_def)
  from assms(2) have n: "0 \<le> nextStartTimeRef (sync_start now s)"
    by (simp add: sync_start_def)
  have "schedule (Inr buf) (sync_start now s) = s\<lparr>nextStartTimeRef := max (nextStartTimeRef s) now + duration buf,
              nodes := (nodes s)(nextId s \<mapsto> \<lparr>buffer = buf,
                 start_time = Some (max (nextStartTimeRef s) now),
                 stop_called = False, ended = False\<rparr>),
              nextId := Suc (nextId s),
              sourcesRef := set_add (nextId s) (sourcesRef s)\<rparr>"
    unfolding schedule_Inr [OF g n] by (simp add: sync_start_def)
  then show ?thesis
    using b br by (simp add: onmessage_def Let_def)
qed

lemma onmessage_accepted:
  assumes "accepted dec msg s buf" "\<not> interrupted msg" "0 \<le> now"
  shows "onmessage dec msg now s =
     (None, s\<lparr>nextStartTimeRef := max (nextStartTimeRef s) now + duration buf,
              nodes := (nodes s)(nextId s \<mapsto> \<lparr>buffer = buf,
                 start_time = Some (max (nextStartTimeRef s) now),
                 stop_called = False, ended = False\<rparr>),
              nextId := Suc (nextId s),
              sourcesRef := set_add (nextId s) (sourcesRef s)\<rparr>)"
  using onmessage_accepted_any [OF assms(1,3)] assms(2) by (simp add: Let_def)


lemma schedule_frame:
  "outputAudioContextRef (schedule res s) = outputAudioContextRef s"
  "gainNodeRef (schedule res s) = gainNodeRef s"
  by (simp_all add: schedule_def Let_def split: sum.splits)

lemma schedule_cursor: "nextStartTimeRef s \<le> nextStartTimeRef (schedule res s)"
  by (simp add: schedule_def Let_def duration_nonneg split: sum.splits)



subsection \<open>A payload that fails to decode\<close>







lemma connected_example_refs:
  "outputAudioContextRef connected_example = Some 2"
  "gainNodeRef connected_example = Some 3"
  "nextStartTimeRef connected_example = 0"
  "nextId connected_example = 7"
  "sourcesRef connected_example = []"
  "nodes connected_example = Map.empty"
  by (simp_all add: connected_example_def connecting_example_def)



subsection \<open>The playback timeline\<close>

lemma chunk_scheduled:
  assumes "accepted dec m s b" "\<not> interrupted m" "0 \<le> t"
  shows "fst (onmessage dec m t s) = None"
    and "scheduled_at (snd (onmessage dec m t s)) (nextId s) (max (nextStartTimeRef s) t) b"
    and "nextStartTimeRef (snd (onmessage dec m t s)) = max (nextStartTimeRef s) t + duration b"
    and "nextId (snd (onmessage dec m t s)) = Suc (nextId s)"
  by (simp_all add: onmessage_accepted [OF assms] scheduled_at_def set_add_def)





lemma chunk_examples:
  "accepted (spec_decode 10) chunk_a connected_example buf_a"
  "accepted (spec_decode 10) chunk_b connected_example buf_b"
  "accepted (spec_decode 10) chunk_c connected_example buf_c"
  "\<not> interrupted chunk_a" "\<not> interrupted chunk_b" "\<not> interrupted chunk_c"
  "duration buf_a = 1 / 2" "duration buf_b = 3 / 10" "duration buf_c = 1 / 5"
  by (simp_all add: accepted_def audio_branch_def spec_decode_def connected_example_refs
      chunk_a_def chunk_b_def chunk_c_def buf_a_def buf_b_def buf_c_def duration_def)


subsection \<open>The invariant\<close>

lemma onmessage_audio_part:
  "onmessage dec msg now s =
     (if interrupted msg then interrupt (audio_part dec msg now s)
      else (None, audio_part dec msg now s))"
  by (simp add: onmessage_def audio_part_def Let_def)

lemma wfI:
  assumes "\<And>h. h \<in> set (sourcesRef s) \<Longrightarrow> h < nextId s"
    and "\<And>h. h \<in> set (sourcesRef s) \<Longrightarrow> \<exists>n. nodes s h = Some n \<and> started n"
    and "0 < nextId s" "videoIntervalRef s \<noteq> Some 0"
  shows "well_formed s"
  using assms by (fastforce simp: well_formed_def split: option.splits)

lemma wfD:
  assumes "well_formed s"
  shows "h \<in> set (sourcesRef s) \<Longrightarrow> h < nextId s"
    and "h \<in> set (sourcesRef s) \<Longrightarrow> \<exists>n. nodes s h = Some n \<and> started n"
    and "0 < nextId s" and "videoIntervalRef s \<noteq> Some 0"
  using assms by (auto simp: well_formed_def split: option.splits)

lemma wf_initial: "well_formed initial"
  by (simp add: well_formed_def initial_def)

lemma wf_frame:
  assumes "well_formed s" "sourcesRef s' = sourcesRef s" "nodes s' = nodes s" "nextId s \<le> nextId s'"
    "videoIntervalRef s' = videoIntervalRef s"
  shows "well_formed s'"
proof (rule wfI)
  fix h assume "h \<in> set (sourcesRef s')"
  then have h: "h \<in> set (sourcesRef s)" by (simp add: assms(2))
  from wfD(1) [OF assms(1) h] assms(4) show "h < nextId s'" by simp
  from wfD(2) [OF assms(1) h] show "\<exists>n. nodes s' h = Some n \<and> started n"
    by (simp add: assms(3))
next
  from wfD(3) [OF assms(1)] assms(4) show "0 < nextId s'" by simp
  from wfD(4) [OF assms(1)] show "videoIntervalRef s' \<noteq> Some 0" by (simp add: assms(5))
qed

lemma wf_no_sources:
  assumes "sourcesRef s = []" "0 < nextId s" "videoIntervalRef s \<noteq> Some 0"
  shows "well_formed s"
  using assms by (simp add: well_formed_def)

lemma wf_sync_start: "well_formed s \<Longrightarrow> well_formed (sync_start now s)"
  by (erule wf_frame) (simp_all add: sync_start_def)

lemma schedule_old_nodes: "h < nextId s \<Longrightarrow> nodes (schedule res s) h = nodes s h"
  by (simp add: schedule_def Let_def split: sum.splits)

lemma schedule_sources: "set (sourcesRef s) \<subseteq> set (sourcesRef (schedule res s))"
  by (auto simp add: schedule_def Let_def set_add_def split: sum.splits)

lemma schedule_nextId: "nextId s \<le> nextId (schedule res s)"
  by (simp add: schedule_def Let_def split: sum.splits)

lemma schedule_interval: "videoIntervalRef (schedule res s) = videoIntervalRef s"
  by (simp add: schedule_def Let_def split: sum.splits)

lemma schedule_new_source:
  assumes "h \<in> set (sourcesRef (schedule res s))" "h \<notin> set (sourcesRef s)"
  shows "h = nextId s \<and> h < nextId (schedule res s)
       \<and> (\<exists>n. nodes (schedule res s) h = Some n \<and> started n)"
  using assms
  by (auto simp add: schedule_def Let_def set_add_def started_def split: sum.splits if_splits)

lemma wf_schedule:
  assumes "well_formed s"
  shows "well_formed (schedule res s)"
proof (rule wfI)
  fix h assume h: "h \<in> set (sourcesRef (schedule res s))"
  show "h < nextId (schedule res s)"
  proof (cases "h \<in> set (sourcesRef s)")
    case True
    from wfD(1) [OF assms True] schedule_nextId [of s res] show ?thesis by simp
  next
    case False
    from schedule_new_source [OF h False] show ?thesis by simp
  qed
  show "\<exists>n. nodes (schedule res s) h = Some n \<and> started n"
  proof (cases "h \<in> set (sourcesRef s)")
    case True
    from wfD(1,2) [OF assms True] show ?thesis by (simp add: schedule_old_nodes)
  next
    case False
    from schedule_new_source [OF h False] show ?thesis by blast
  qed
next
  from wfD(3) [OF assms] schedule_nextId [of s res] show "0 < nextId (schedule res s)" by simp
  from wfD(4) [OF assms] show "videoIntervalRef (schedule res s) \<noteq> Some 0"
    by (simp add: schedule_interval)
qed

lemma wf_audio_part: "well_formed s \<Longrightarrow> well_formed (audio_part dec msg now s)"
  by (simp add: audio_part_def wf_schedule wf_sync_start split: option.splits)

lemma interrupt_wf:
  assumes "well_formed s"
  shows "interrupt s = (None, s\<lparr>nodes := stop_ignoring (sourcesRef s) (nodes s),
                                  sourcesRef := [], nextStartTimeRef := 0\<rparr>)"
proof -
  have "\<forall>h\<in>set (sourcesRef s). \<forall>n. nodes s h = Some n \<longrightarrow> started n"
    using wfD(2) [OF assms] by fastforce
  from stop_each_started [OF this] show ?thesis
    by (simp add: interrupt_def)
qed

lemma wf_interrupt: "well_formed s \<Longrightarrow> well_formed (snd (interrupt s))"
  by (frule interrupt_wf) (simp add: well_formed_def)

lemma wf_stopSession:
  assumes "well_formed s"
  shows "well_formed (stopSession s)"
  using wfD(3,4) [OF assms]
  by (intro wf_no_sources) (simp_all add: stopSession_refs stopSession_kept stopSession_interval)

lemma startSession_wf_parts:
  "sourcesRef (startSession env s) = []"
  "nextId s \<le> nextId (startSession env s)"
  "videoIntervalRef (startSession env s) = videoIntervalRef (stopSession s)"
  by (simp_all add: startSession_def Let_def stopSession_refs stopSession_kept split: sum.splits)

lemma wf_startSession:
  assumes "well_formed s"
  shows "well_formed (startSession env s)"
proof (rule wf_no_sources)
  show "sourcesRef (startSession env s) = []"
    by (rule startSession_wf_parts)
  from wfD(3) [OF assms] startSession_wf_parts(2) [of s env]
  show "0 < nextId (startSession env s)" by simp
  from wfD(4) [OF assms] show "videoIntervalRef (startSession env s) \<noteq> Some 0"
    by (simp add: startSession_wf_parts stopSession_interval)
qed

lemma onopen_wf_parts:
  "sourcesRef (onopen r s) = sourcesRef s"
  "nodes (onopen r s) = nodes s"
  "nextId s \<le> nextId (onopen r s)"
  "videoIntervalRef (onopen r s) = videoIntervalRef s \<or>
   (\<exists>i. nextId s \<le> i \<and> videoIntervalRef (onopen r s) = Some i)"
  by (simp_all add: onopen_def startVideoStream_def Let_def split: option.splits)

lemma wf_onopen:
  assumes "well_formed s"
  shows "well_formed (onopen r s)"
proof (rule wfI)
  fix h assume "h \<in> set (sourcesRef (onopen r s))"
  then have h: "h \<in> set (sourcesRef s)" by (simp add: onopen_wf_parts)
  from wfD(1) [OF assms h] onopen_wf_parts(3) [of s r] show "h < nextId (onopen r s)" by simp
  from wfD(2) [OF assms h] show "\<exists>n. nodes (onopen r s) h = Some n \<and> started n"
    by (simp add: onopen_wf_parts)
next
  from wfD(3) [OF assms] onopen_wf_parts(3) [of s r] show "0 < nextId (onopen r s)" by simp
  from wfD(3,4) [OF assms] onopen_wf_parts(4) [of r s]
  show "videoIntervalRef (onopen r s) \<noteq> Some 0" by auto
qed

lemma wf_submit: "well_formed s \<Longrightarrow> well_formed (submit b s)"
  by (erule wf_frame) (simp_all add: submit_def split: option.splits)

lemma wf_onaudioprocess: "well_formed s \<Longrightarrow> well_formed (onaudioprocess enc m w s)"
proof -
  assume "well_formed s"
  then have "well_formed (s\<lparr>volumeLevel := volume w\<rparr>)"
    by (rule wf_frame) simp_all
  with \<open>well_formed s\<close> show ?thesis
    by (simp add: onaudioprocess_def wf_submit)
qed

lemma wf_video_tick: "well_formed s \<Longrightarrow> well_formed (video_tick v frame s)"
  by (simp add: video_tick_def wf_submit split: option.splits)

lemma wf_playback_ends:
  assumes "well_formed s"
  shows "well_formed (playback_ends h s)"
proof (cases "nodes s h")
  case None
  with assms show ?thesis by (simp add: playback_ends_def)
next
  case (Some n)
  show ?thesis
  proof (cases "start_time n \<noteq> None \<and> \<not> stop_called n")
    case False
    with Some assms show ?thesis by (auto simp add: playback_ends_def)
  next
    case True
    with Some have e: "playback_ends h s = s\<lparr>nodes := (nodes s)(h \<mapsto> n\<lparr>ended := True\<rparr>)\<rparr>"
      by (auto simp add: playback_ends_def)
    show ?thesis
      unfolding e
    proof (rule wfI)
      fix k assume k: "k \<in> set (sourcesRef (s\<lparr>nodes := (nodes s)(h \<mapsto> n\<lparr>ended := True\<rparr>)\<rparr>))"
      then have k': "k \<in> set (sourcesRef s)" by simp
      from wfD(1) [OF assms k'] show "k < nextId (s\<lparr>nodes := (nodes s)(h \<mapsto> n\<lparr>ended := True\<rparr>)\<rparr>)"
        by simp
      from wfD(2) [OF assms k'] True
      show "\<exists>m. nodes (s\<lparr>nodes := (nodes s)(h \<mapsto> n\<lparr>ended := True\<rparr>)\<rparr>) k = Some m \<and> started m"
        by (auto simp: started_def)
    next
      from wfD(3,4) [OF assms]
      show "0 < nextId (s\<lparr>nodes := (nodes s)(h \<mapsto> n\<lparr>ended := True\<rparr>)\<rparr>)"
        and "videoIntervalRef (s\<lparr>nodes := (nodes s)(h \<mapsto> n\<lparr>ended := True\<rparr>)\<rparr>) \<noteq> Some 0"
        by simp_all
    qed
  qed
qed

lemma wf_onended:
  assumes "well_formed s"
  shows "well_formed (onended h s)"
proof (rule wfI)
  fix k assume "k \<in> set (sourcesRef (onended h s))"
  then have k: "k \<in> set (sourcesRef s)"
    by (simp add: onended_def set_delete_def)
  from wfD(1) [OF assms k] show "k < nextId (onended h s)" by (simp add: onended_def)
  from wfD(2) [OF assms k] show "\<exists>n. nodes (onended h s) k = Some n \<and> started n"
    by (simp add: onended_def)
next
  from wfD(3,4) [OF assms]
  show "0 < nextId (onended h s)" and "videoIntervalRef (onended h s) \<noteq> Some 0"
    by (simp_all add: onended_def)
qed

lemma wf_message_arrives:
  assumes "well_formed s"
  shows "well_formed (message_arrives dec msg now s)"
proof -
  have "well_formed ((sync_start now s)\<lparr>pending := p, nextPending := k\<rparr>)" for p k
    by (rule wf_frame [OF wf_sync_start [OF assms]]) simp_all
  with assms wf_interrupt [OF assms] show ?thesis
    by (simp add: message_arrives_def split: option.splits)
qed

lemma wf_decode_done:
  assumes "well_formed s"
  shows "well_formed (decode_done k s)"
proof (cases "pending s k")
  case None
  with assms show ?thesis by (simp add: decode_done_def)
next
  case (Some a)
  obtain res intr where a: "a = (res, intr)" by (cases a)
  have "well_formed (s\<lparr>pending := (pending s)(k := None)\<rparr>)"
    by (rule wf_frame [OF assms]) simp_all
  then have w: "well_formed (schedule res (s\<lparr>pending := (pending s)(k := None)\<rparr>))"
    by (rule wf_schedule)
  from w wf_interrupt [OF w] Some a show ?thesis
    by (simp add: decode_done_def Let_def)
qed

lemma wf_step:
  assumes "well_formed s"
  shows "well_formed (step enc dec e s)"
proof (cases e)
  case (ClickStart env)
  with assms wf_startSession [OF assms] show ?thesis by simp
next
  case ClickEnd
  with assms wf_stopSession [OF assms] show ?thesis by simp
next
  case ToggleMute
  have "well_formed (s\<lparr>isMuted := \<not> isMuted s\<rparr>)" by (rule wf_frame [OF assms]) simp_all
  with assms ToggleMute show ?thesis by simp
next
  case ToggleVideo
  have "well_formed (s\<lparr>isVideoEnabled := \<not> isVideoEnabled s\<rparr>)" by (rule wf_frame [OF assms]) simp_all
  with assms ToggleVideo show ?thesis by simp
next
  case DismissError
  have "well_formed (s\<lparr>status := Disconnected\<rparr>)" by (rule wf_frame [OF assms]) simp_all
  with assms DismissError show ?thesis by simp
next
  case (OnOpen p)
  with assms wf_onopen [OF assms] show ?thesis by (simp split: option.splits)
next
  case (OnMessage msg now)
  with wf_message_arrives [OF assms] show ?thesis by simp
next
  case (DecodeDone k)
  with wf_decode_done [OF assms] show ?thesis by simp
next
  case OnClose
  with wf_stopSession [OF assms] show ?thesis by (simp add: onclose_def)
next
  case OnError
  have "well_formed (s\<lparr>errorMsg := Some ''Connection error. Please try again.''\<rparr>)"
    by (rule wf_frame [OF assms]) simp_all
  from wf_stopSession [OF this] OnError show ?thesis by (simp add: onerror_def)
next
  case (ConnectRejected m)
  have "well_formed (s\<lparr>errorMsg := Some (or_default m ''Failed to connect to Gemini.''),
              status := ErrorStatus\<rparr>)"
    by (rule wf_frame [OF assms]) simp_all
  from wf_stopSession [OF this] ConnectRejected show ?thesis by (simp add: connect_rejected_def)
next
  case (AudioProcess p w)
  with assms wf_onaudioprocess [OF assms] show ?thesis by (simp split: option.splits)
next
  case (VideoTick i frame)
  with assms wf_video_tick [OF assms] show ?thesis by (simp split: option.splits)
next
  case (PlaybackEnds h)
  with wf_playback_ends [OF assms] show ?thesis by simp
next
  case (OnEnded h)
  with wf_onended [OF assms] show ?thesis by simp
qed

lemma wf_run: "well_formed s \<Longrightarrow> well_formed (run enc dec es s)"
  by (induction es arbitrary: s) (simp_all add: wf_step)

text \<open>Every state reached from the freshly mounted component satisfies the invariant.\<close>

lemma wf_reached: "well_formed (run enc dec es initial)"
  by (rule wf_run [OF wf_initial])

lemma wf_onmessage: "well_formed s \<Longrightarrow> well_formed (snd (onmessage dec msg now s))"
  by (simp add: onmessage_audio_part wf_audio_part wf_interrupt)

lemma wf_onmessages: "well_formed s \<Longrightarrow> well_formed (onmessages dec ms s)"
  by (induction ms arbitrary: s) (auto simp add: wf_onmessage)

subsection \<open>Interruption\<close>

lemma audio_part_frame:
  "set (sourcesRef s) \<subseteq> set (sourcesRef (audio_part dec msg now s))"
  "h < nextId s \<Longrightarrow> nodes (audio_part dec msg now s) h = nodes s h"
  "outputAudioContextRef (audio_part dec msg now s) = outputAudioContextRef s"
  "gainNodeRef (audio_part dec msg now s) = gainNodeRef s"
proof -
  have "set (sourcesRef s) \<subseteq> set (sourcesRef (schedule res (sync_start now s)))" for res
    using schedule_sources [of "sync_start now s" res] by (simp add: sync_start_def)
  then show "set (sourcesRef s) \<subseteq> set (sourcesRef (audio_part dec msg now s))"
    by (simp add: audio_part_def split: option.splits)
  have "nodes (schedule res (sync_start now s)) h = nodes s h" if "h < nextId s" for res
    using schedule_old_nodes [of h "sync_start now s" res] that by (simp add: sync_start_def)
  then show "h < nextId s \<Longrightarrow> nodes (audio_part dec msg now s) h = nodes s h"
    by (simp add: audio_part_def split: option.splits)
  show "outputAudioContextRef (audio_part dec msg now s) = outputAudioContextRef s"
    by (simp add: audio_part_def schedule_frame sync_start_def split: option.splits)
  show "gainNodeRef (audio_part dec msg now s) = gainNodeRef s"
    by (simp add: audio_part_def schedule_frame sync_start_def split: option.splits)
qed

lemma onmessage_interrupting:
  assumes "well_formed s" "interrupted msg"
  shows "onmessage dec msg now s =
     (None, (audio_part dec msg now s)\<lparr>
        nodes := stop_ignoring (sourcesRef (audio_part dec msg now s))
                   (nodes (audio_part dec msg now s)),
        sourcesRef := [], nextStartTimeRef := 0\<rparr>)"
  using assms(2) interrupt_wf [OF wf_audio_part [OF assms(1)]]
  by (simp add: onmessage_audio_part)

lemma stop_caught_ended: "ended n \<Longrightarrow> stop_caught n = n"
  by (simp add: stop_caught_def stop_def split: option.splits)

lemma interruption_handles:
  assumes "well_formed s" "interrupted msg" "h \<in> set (sourcesRef s)"
  shows "\<exists>n. nodes s h = Some n \<and> started n
           \<and> nodes (snd (onmessage dec msg now s)) h = Some (stop_caught n)"
proof -
  from wfD(1,2) [OF assms(1,3)] obtain n where
    n: "nodes s h = Some n" "started n" and lt: "h < nextId s"
    by blast
  have "h \<in> set (sourcesRef (audio_part dec msg now s))"
    using audio_part_frame(1) assms(3) by blast
  then have "nodes (snd (onmessage dec msg now s)) h = Some (stop_caught n)"
    by (simp add: onmessage_interrupting [OF assms(1,2)] stop_ignoring_apply
        audio_part_frame(2) [OF lt] n)
  with n show ?thesis by simp
qed

text \<open>
  C7. In a state that satisfies the invariant, as every state reached from the initial
  one does, a message with the interruption flag is handled without an exception
  leaving the handler; afterwards the live set is empty and the cursor is 0; every
  handle that was in the live set is stopped or had ended, and one that had ended is left
  as it was; and the next accepted chunk, arriving at output-clock time \<open>now2\<close>, is
  started at \<open>now2\<close>, whatever the cursor was before the interruption.
\<close>

theorem interruption_stops_and_resets:
  assumes "well_formed s" "interrupted msg"
  shows "fst (onmessage dec msg now s) = None
       \<and> sourcesRef (snd (onmessage dec msg now s)) = []
       \<and> nextStartTimeRef (snd (onmessage dec msg now s)) = 0
       \<and> (\<forall>h\<in>set (sourcesRef s).
             \<exists>n'. nodes (snd (onmessage dec msg now s)) h = Some n' \<and> halted n')
       \<and> (\<forall>h\<in>set (sourcesRef s). \<forall>n. nodes s h = Some n \<and> ended n \<longrightarrow>
             nodes (snd (onmessage dec msg now s)) h = Some n)
       \<and> (\<forall>msg2 now2 buf.
             accepted dec msg2 (snd (onmessage dec msg now s)) buf \<and> \<not> interrupted msg2
             \<and> 0 \<le> now2 \<longrightarrow>
             scheduled_at (snd (onmessage dec msg2 now2 (snd (onmessage dec msg now s))))
               (nextId (snd (onmessage dec msg now s))) now2 buf)"
proof -
  let ?s' = "snd (onmessage dec msg now s)"
  have basic: "fst (onmessage dec msg now s) = None" "sourcesRef ?s' = []"
    "nextStartTimeRef ?s' = 0"
    by (simp_all add: onmessage_interrupting [OF assms])
  have stopped: "\<forall>h\<in>set (sourcesRef s). \<exists>n'. nodes ?s' h = Some n' \<and> halted n'"
    using interruption_handles [OF assms] stop_caught_halted by blast
  have kept: "\<forall>h\<in>set (sourcesRef s). \<forall>n. nodes s h = Some n \<and> ended n \<longrightarrow> nodes ?s' h = Some n"
  proof (intro ballI allI impI)
    fix h n assume h: "h \<in> set (sourcesRef s)" and n: "nodes s h = Some n \<and> ended n"
    from interruption_handles [OF assms h, of dec now] n
    show "nodes ?s' h = Some n" by (auto simp: stop_caught_ended)
  qed
  have "next": "scheduled_at (snd (onmessage dec msg2 now2 ?s')) (nextId ?s') now2 buf"
    if "accepted dec msg2 ?s' buf \<and> \<not> interrupted msg2 \<and> 0 \<le> now2" for msg2 now2 buf
  proof -
    from that have a: "accepted dec msg2 ?s' buf" "\<not> interrupted msg2" "0 \<le> now2"
      by simp_all
    from chunk_scheduled(2) [OF a] a(3) show ?thesis
      by (simp add: basic(3))
  qed
  from basic stopped kept "next" show ?thesis by blast
qed

lemma well_formed_examples:
  "well_formed connected_example" "well_formed playing_example" "well_formed finished_example"
  "well_formed suspended_example"
  by (simp_all add: well_formed_def connected_example_def connecting_example_def
      playing_example_def finished_example_def suspended_example_def started_def)

lemma interrupted_example:
  "onmessage (spec_decode 10) interruption 3 playing_example =
     (None, playing_example \<lparr> nextStartTimeRef := 0, sourcesRef := [],
        nodes := [7 \<mapsto> \<lparr>buffer = \<lparr>buf_length = 5, buf_sampleRate = 10\<rparr>,
                         start_time = Some 2, stop_called = True, ended = False\<rparr>] \<rparr>)"
  by (simp add: onmessage_def interruption_def interrupt_def playing_example_def stop_def)

lemma interrupted_finished_example:
  "onmessage (spec_decode 10) interruption 3 finished_example =
     (None, finished_example \<lparr> nextStartTimeRef := 0, sourcesRef := [] \<rparr>)"
  by (simp add: onmessage_def interruption_def interrupt_def finished_example_def
      playing_example_def stop_def)

theorem interruption_stops_and_resets_witness:
  "well_formed playing_example \<and> well_formed finished_example \<and> interrupted interruption
   \<and> sourcesRef playing_example = [7] \<and> sourcesRef finished_example = [7]
   \<and> nextStartTimeRef playing_example = 5 / 2
   \<and> fst (onmessage (spec_decode 10) interruption 3 playing_example) = None
   \<and> sourcesRef (snd (onmessage (spec_decode 10) interruption 3 playing_example)) = []
   \<and> nextStartTimeRef (snd (onmessage (spec_decode 10) interruption 3 playing_example)) = 0
   \<and> (\<exists>n'. nodes (snd (onmessage (spec_decode 10) interruption 3 playing_example)) 7 = Some n'
          \<and> halted n')
   \<and> (\<exists>n. nodes finished_example 7 = Some n \<and> ended n
          \<and> nodes (snd (onmessage (spec_decode 10) interruption 3 finished_example)) 7 = Some n)
   \<and> accepted (spec_decode 10) chunk_b
        (snd (onmessage (spec_decode 10) interruption 3 playing_example)) buf_b
   \<and> \<not> interrupted chunk_b
   \<and> scheduled_at
        (snd (onmessage (spec_decode 10) chunk_b 4
           (snd (onmessage (spec_decode 10) interruption 3 playing_example)))) 8 4 buf_b"
proof -
  have i: "interrupted interruption"
    by (simp add: interruption_def)
  have a: "accepted (spec_decode 10) chunk_b
        (snd (onmessage (spec_decode 10) interruption 3 playing_example)) buf_b"
    unfolding interrupted_example snd_conv
    by (simp add: accepted_def audio_branch_def chunk_b_def buf_b_def
        spec_decode_def playing_example_def connected_example_refs)
  have n: "nextId (snd (onmessage (spec_decode 10) interruption 3 playing_example)) = 8"
    unfolding interrupted_example snd_conv by (simp add: playing_example_def)
  have f: "nodes finished_example 7 = Some \<lparr>buffer = \<lparr>buf_length = 5, buf_sampleRate = 10\<rparr>,
                      start_time = Some 2, stop_called = False, ended = True\<rparr>"
    by (simp add: finished_example_def)
  have src: "sourcesRef playing_example = [7]" "sourcesRef finished_example = [7]"
    "nextStartTimeRef playing_example = 5 / 2"
    by (simp_all add: playing_example_def finished_example_def)
  show ?thesis
    using interruption_stops_and_resets [OF well_formed_examples(2) i, of "spec_decode 10" 3]
      interruption_stops_and_resets [OF well_formed_examples(3) i, of "spec_decode 10" 3]
      a i n f src well_formed_examples chunk_examples
    by simp
qed

subsection \<open>A chunk that interrupts\<close>

lemma audio_part_accepted:
  assumes "accepted dec msg s buf" "0 \<le> now"
  shows "audio_part dec msg now s =
     s\<lparr>nextStartTimeRef := max (nextStartTimeRef s) now + duration buf,
       nodes := (nodes s)(nextId s \<mapsto> \<lparr>buffer = buf,
                 start_time = Some (max (nextStartTimeRef s) now),
                 stop_called = False, ended = False\<rparr>),
       nextId := Suc (nextId s),
       sourcesRef := set_add (nextId s) (sourcesRef s)\<rparr>"
proof -
  from assms(1) obtain b where b: "base64Audio msg = Some b" "dec b = Inr buf"
    and br: "audio_branch msg s" and g0: "gainNodeRef s \<noteq> None"
    by (rule accepted_parts)
  from g0 have g: "gainNodeRef (sync_start now s) \<noteq> None"
    by (simp add: sync_start_def)
  from assms(2) have n: "0 \<le> nextStartTimeRef (sync_start now s)"
    by (simp add: sync_start_def)
  have "audio_part dec msg now s = schedule (Inr buf) (sync_start now s)"
    using b br by (simp add: audio_part_def)
  then show ?thesis
    unfolding schedule_Inr [OF g n] by (simp add: sync_start_def)
qed

lemma decode_done_interrupting:
  assumes "well_formed s" "pending s k = Some (res, True)"
  shows "sourcesRef (decode_done k s) = [] \<and> nextStartTimeRef (decode_done k s) = 0"
proof -
  have "well_formed (s\<lparr>pending := (pending s)(k := None)\<rparr>)"
    by (rule wf_frame [OF assms(1)]) simp_all
  then have "well_formed (schedule res (s\<lparr>pending := (pending s)(k := None)\<rparr>))"
    by (rule wf_schedule)
  from interrupt_wf [OF this] assms(2) show ?thesis
    by (simp add: decode_done_def Let_def)
qed

text \<open>
  C10. In a state that satisfies the invariant, a message that carries an audio payload
  and the interruption flag leaves the live set empty and the cursor at 0; where its chunk is
  accepted, the handle of that chunk was started at the maximum of the cursor and the
  clock and then stopped by the same handler. The same holds for a handler that was
  suspended at its \<open>await\<close> and resumes.
\<close>

theorem interrupting_chunk_is_stopped:
  assumes "well_formed s" "interrupted msg" "base64Audio msg = Some b"
  shows "fst (onmessage dec msg now s) = None
       \<and> sourcesRef (snd (onmessage dec msg now s)) = []
       \<and> nextStartTimeRef (snd (onmessage dec msg now s)) = 0
       \<and> (accepted dec msg s buf \<and> 0 \<le> now \<longrightarrow>
            nodes (snd (onmessage dec msg now s)) (nextId s) =
              Some \<lparr>buffer = buf, start_time = Some (max (nextStartTimeRef s) now),
                    stop_called = True, ended = False\<rparr>)
       \<and> (\<forall>k res. pending s k = Some (res, True) \<longrightarrow>
            sourcesRef (decode_done k s) = [] \<and> nextStartTimeRef (decode_done k s) = 0)"
proof -
  let ?s' = "snd (onmessage dec msg now s)"
  have basic: "fst (onmessage dec msg now s) = None" "sourcesRef ?s' = []"
    "nextStartTimeRef ?s' = 0"
    by (simp_all add: onmessage_interrupting [OF assms(1,2)])
  have carried: "nodes ?s' (nextId s) =
      Some \<lparr>buffer = buf, start_time = Some (max (nextStartTimeRef s) now),
            stop_called = True, ended = False\<rparr>"
    if "accepted dec msg s buf \<and> 0 \<le> now"
  proof -
    from that have a: "accepted dec msg s buf" "0 \<le> now" by simp_all
    show ?thesis
      by (simp add: onmessage_interrupting [OF assms(1,2)] audio_part_accepted [OF a]
          stop_ignoring_apply set_add_def stop_caught_def stop_def)
  qed
  from basic carried decode_done_interrupting [OF assms(1)] show ?thesis by blast
qed

lemma suspended_example_run:
  "message_arrives (spec_decode 10) interrupting_chunk 2 connected_example = suspended_example"
  by (simp add: message_arrives_def interrupting_chunk_def audio_branch_def sync_start_def
      decode_example buf_a_def suspended_example_def connected_example_def
      connecting_example_def)

theorem interrupting_chunk_is_stopped_witness:
  "well_formed connected_example \<and> interrupted interrupting_chunk
   \<and> base64Audio interrupting_chunk = Some ''0123456789''
   \<and> accepted (spec_decode 10) interrupting_chunk connected_example buf_a
   \<and> nextId connected_example = 7
   \<and> fst (onmessage (spec_decode 10) interrupting_chunk 2 connected_example) = None
   \<and> sourcesRef (snd (onmessage (spec_decode 10) interrupting_chunk 2 connected_example)) = []
   \<and> nextStartTimeRef (snd (onmessage (spec_decode 10) interrupting_chunk 2 connected_example)) = 0
   \<and> nodes (snd (onmessage (spec_decode 10) interrupting_chunk 2 connected_example)) 7
        = Some \<lparr>buffer = buf_a, start_time = Some 2, stop_called = True, ended = False\<rparr>
   \<and> well_formed suspended_example
   \<and> pending suspended_example 0 = Some (Inr buf_a, True)
   \<and> sourcesRef (decode_done 0 suspended_example) = []
   \<and> nextStartTimeRef (decode_done 0 suspended_example) = 0"
proof -
  have i: "interrupted interrupting_chunk"
    "base64Audio interrupting_chunk = Some ''0123456789''"
    by (simp_all add: interrupting_chunk_def)
  have a: "accepted (spec_decode 10) interrupting_chunk connected_example buf_a"
    by (simp add: accepted_def audio_branch_def interrupting_chunk_def decode_example buf_a_def
        connected_example_refs)
  have p: "pending suspended_example 0 = Some (Inr buf_a, True)"
    by (simp add: suspended_example_def)
  show ?thesis
    using interrupting_chunk_is_stopped [OF well_formed_examples(1) i,
        of "spec_decode 10" 2 buf_a]
      interrupting_chunk_is_stopped [OF well_formed_examples(4) i,
        of "spec_decode 10" 2 buf_a]
      i a p well_formed_examples connected_example_refs
    by simp
qed

subsection \<open>The cursor over all events\<close>

lemma interrupt_cursor:
  "nextStartTimeRef (snd (interrupt s)) = nextStartTimeRef s
   \<or> nextStartTimeRef (snd (interrupt s)) = 0"
  by (simp add: interrupt_def split: prod.splits option.splits)

lemma interrupt_cursor_wf: "well_formed s \<Longrightarrow> nextStartTimeRef (snd (interrupt s)) = 0"
  by (simp add: interrupt_wf)

lemma startSession_cursor:
  "nextStartTimeRef (startSession env s) =
     (if apiKey env \<noteq> None \<and> apiKey env \<noteq> Some []
         \<and> (case userMedia env of Inl m \<Rightarrow> False | Inr ts \<Rightarrow> True)
      then 0 else nextStartTimeRef s)"
  by (simp add: startSession_def Let_def stopSession_kept split: sum.splits)

lemma click_start_cursor:
  "nextStartTimeRef (step enc dec (ClickStart env) s) =
     (if resets_cursor (ClickStart env) s then 0 else nextStartTimeRef s)"
  by (simp add: startSession_cursor)

lemma message_arrives_cursor:
  "nextStartTimeRef (message_arrives dec msg now s) =
     (if audio_branch msg s then max (nextStartTimeRef s) now
      else if interrupted msg then nextStartTimeRef (snd (interrupt s))
      else nextStartTimeRef s)"
  by (auto simp add: message_arrives_def sync_start_def audio_branch_def split: option.splits)

lemma decode_done_cursor:
  "nextStartTimeRef (decode_done k s) =
     (case pending s k of
        None \<Rightarrow> nextStartTimeRef s
      | Some (res, intr) \<Rightarrow>
          if intr
          then nextStartTimeRef
                 (snd (interrupt (schedule res (s\<lparr>pending := (pending s)(k := None)\<rparr>))))
          else nextStartTimeRef (schedule res (s\<lparr>pending := (pending s)(k := None)\<rparr>)))"
  by (simp add: decode_done_def Let_def split: option.splits prod.splits)

lemma schedule_cursor_cases:
  "nextStartTimeRef (schedule res s) = nextStartTimeRef s
   \<or> (\<exists>buf. res = Inr buf \<and> nextStartTimeRef (schedule res s) = nextStartTimeRef s + duration buf)"
  by (simp add: schedule_def Let_def split: sum.splits)

lemma untouched_cursor:
  "\<not> touches_cursor e \<Longrightarrow> nextStartTimeRef (step enc dec e s) = nextStartTimeRef s"
  by (cases e)
     (simp_all add: stopSession_kept onclose_def onerror_def connect_rejected_def
       onopen_def startVideoStream_def onaudioprocess_def video_tick_def submit_def
       playback_ends_def onended_def Let_def split: option.splits)

lemma cursor_lowered_only_by_reset:
  "nextStartTimeRef s \<le> nextStartTimeRef (step enc dec e s)
   \<or> (resets_cursor e s \<and> nextStartTimeRef (step enc dec e s) = 0)"
proof (cases "touches_cursor e")
  case False
  then show ?thesis by (simp add: untouched_cursor)
next
  case True
  then show ?thesis
  proof (cases e)
    case (ClickStart env)
    show ?thesis
      unfolding ClickStart click_start_cursor by simp
  next
    case (OnMessage msg now)
    with interrupt_cursor [of s] show ?thesis
      by (auto simp add: message_arrives_cursor)
  next
    case (DecodeDone k)
    show ?thesis
    proof (cases "pending s k")
      case None
      with DecodeDone show ?thesis by (simp add: decode_done_cursor)
    next
      case (Some a)
      obtain res intr where a: "a = (res, intr)" by (cases a)
      let ?s1 = "schedule res (s\<lparr>pending := (pending s)(k := None)\<rparr>)"
      have m: "nextStartTimeRef s \<le> nextStartTimeRef ?s1"
        using schedule_cursor [of "s\<lparr>pending := (pending s)(k := None)\<rparr>" res] by simp
      from m interrupt_cursor [of ?s1] DecodeDone Some a show ?thesis
        by (auto simp add: decode_done_cursor)
    qed
  qed simp_all
qed

lemma reset_gives_zero:
  assumes "well_formed s" "resets_cursor e s"
  shows "nextStartTimeRef (step enc dec e s) = 0"
proof (cases e)
  case (ClickStart env)
  with assms(2) show ?thesis
    by (simp only: click_start_cursor if_True)
next
  case (OnMessage msg now)
  with assms(2) interrupt_cursor_wf [OF assms(1)] show ?thesis
    by (simp add: message_arrives_cursor)
next
  case (DecodeDone k)
  with assms(2) obtain res where p: "pending s k = Some (res, True)"
    by (auto split: option.splits)
  have "well_formed (s\<lparr>pending := (pending s)(k := None)\<rparr>)"
    by (rule wf_frame [OF assms(1)]) simp_all
  then have "well_formed (schedule res (s\<lparr>pending := (pending s)(k := None)\<rparr>))"
    by (rule wf_schedule)
  from interrupt_cursor_wf [OF this] DecodeDone p show ?thesis
    by (simp add: decode_done_cursor)
qed (use assms(2) in simp_all)

lemma cursor_raised_by_max_or_duration:
  assumes "\<not> resets_cursor e s"
  shows "e = OnMessage msg now \<Longrightarrow>
           nextStartTimeRef (step enc dec e s) = nextStartTimeRef s
         \<or> nextStartTimeRef (step enc dec e s) = max (nextStartTimeRef s) now"
    and "e = DecodeDone k \<Longrightarrow>
           nextStartTimeRef (step enc dec e s) = nextStartTimeRef s
         \<or> (\<exists>buf. pending s k = Some (Inr buf, False) \<and> 0 \<le> duration buf
               \<and> nextStartTimeRef (step enc dec e s) = nextStartTimeRef s + duration buf)"
proof -
  show "nextStartTimeRef (step enc dec e s) = nextStartTimeRef s
         \<or> nextStartTimeRef (step enc dec e s) = max (nextStartTimeRef s) now"
    if "e = OnMessage msg now"
    using assms that by (auto simp add: message_arrives_cursor)
  show "nextStartTimeRef (step enc dec e s) = nextStartTimeRef s
         \<or> (\<exists>buf. pending s k = Some (Inr buf, False) \<and> 0 \<le> duration buf
               \<and> nextStartTimeRef (step enc dec e s) = nextStartTimeRef s + duration buf)"
    if "e = DecodeDone k"
  proof (cases "pending s k")
    case None
    with that show ?thesis by (simp add: decode_done_cursor)
  next
    case (Some a)
    obtain res intr where a: "a = (res, intr)" by (cases a)
    from assms that Some a have i: "\<not> intr" by simp
    from schedule_cursor_cases [of res "s\<lparr>pending := (pending s)(k := None)\<rparr>"]
      that Some a i show ?thesis
      by (auto simp add: decode_done_cursor duration_nonneg)
  qed
qed

text \<open>
  C8, as the code has it. No event lowers the cursor except one that resets it, a
  session start or the end of the handler of an interrupting message; such an event
  leaves the cursor at 0; an event that does not reset and changes the cursor either
  raises it to its maximum with the output-clock time (the arrival of a message) or adds
  the duration of a chunk, which is not negative (the resumption of a handler); no other
  event writes the cursor, and teardown (\<open>stopSession\<close>) in particular leaves it as it
  is.
\<close>

theorem cursor_monotone_but_for_resets:
  "(nextStartTimeRef s \<le> nextStartTimeRef (step enc dec e s)
      \<or> (resets_cursor e s \<and> nextStartTimeRef (step enc dec e s) = 0))
   \<and> (well_formed s \<and> resets_cursor e s \<longrightarrow> nextStartTimeRef (step enc dec e s) = 0)
   \<and> (\<forall>msg now. e = OnMessage msg now \<and> \<not> resets_cursor e s \<longrightarrow>
          nextStartTimeRef (step enc dec e s) = nextStartTimeRef s
        \<or> nextStartTimeRef (step enc dec e s) = max (nextStartTimeRef s) now)
   \<and> (\<forall>k. e = DecodeDone k \<and> \<not> resets_cursor e s \<longrightarrow>
          nextStartTimeRef (step enc dec e s) = nextStartTimeRef s
        \<or> (\<exists>buf. pending s k = Some (Inr buf, False) \<and> 0 \<le> duration buf
              \<and> nextStartTimeRef (step enc dec e s) = nextStartTimeRef s + duration buf))
   \<and> (\<not> touches_cursor e \<longrightarrow> nextStartTimeRef (step enc dec e s) = nextStartTimeRef s)
   \<and> nextStartTimeRef (stopSession s) = nextStartTimeRef s"
proof (intro conjI allI impI)
  show "nextStartTimeRef s \<le> nextStartTimeRef (step enc dec e s)
      \<or> (resets_cursor e s \<and> nextStartTimeRef (step enc dec e s) = 0)"
    by (rule cursor_lowered_only_by_reset)
  show "nextStartTimeRef (step enc dec e s) = 0" if "well_formed s \<and> resets_cursor e s"
    using that reset_gives_zero by blast
  show "nextStartTimeRef (step enc dec e s) = nextStartTimeRef s
        \<or> nextStartTimeRef (step enc dec e s) = max (nextStartTimeRef s) now"
    if "e = OnMessage msg now \<and> \<not> resets_cursor e s" for msg now
    using that cursor_raised_by_max_or_duration(1) by blast
  show "nextStartTimeRef (step enc dec e s) = nextStartTimeRef s
        \<or> (\<exists>buf. pending s k = Some (Inr buf, False) \<and> 0 \<le> duration buf
              \<and> nextStartTimeRef (step enc dec e s) = nextStartTimeRef s + duration buf)"
    if "e = DecodeDone k \<and> \<not> resets_cursor e s" for k
    using that cursor_raised_by_max_or_duration(2) by blast
  show "nextStartTimeRef (step enc dec e s) = nextStartTimeRef s" if "\<not> touches_cursor e"
    using that by (rule untouched_cursor)
  show "nextStartTimeRef (stopSession s) = nextStartTimeRef s"
    by (rule stopSession_kept)
qed

lemma playing_example_fields:
  "nextStartTimeRef playing_example = 5 / 2"
  "status playing_example = Connected"
  "sourcesRef playing_example = [7]"
  "nextId playing_example = 8"
  "gainNodeRef playing_example = Some 3"
  "outputAudioContextRef playing_example = Some 2"
  "pending playing_example = Map.empty"
  "nextPending playing_example = 0"
  by (simp_all add: playing_example_def connected_example_def connecting_example_def)

theorem cursor_monotone_but_for_resets_witness:
  "\<not> touches_cursor ClickEnd
   \<and> nextStartTimeRef (step pcm_example (spec_decode 10) ClickEnd playing_example)
        = nextStartTimeRef playing_example
   \<and> nextStartTimeRef playing_example = 5 / 2
   \<and> well_formed playing_example
   \<and> \<not> resets_cursor (OnMessage chunk_b 3) playing_example
   \<and> nextStartTimeRef (step pcm_example (spec_decode 10) (OnMessage chunk_b 3) playing_example)
        = 3
   \<and> well_formed overlapping_example
   \<and> \<not> resets_cursor (DecodeDone 0) overlapping_example
   \<and> nextStartTimeRef overlapping_example = 3
   \<and> nextStartTimeRef (step pcm_example (spec_decode 10) (DecodeDone 0) overlapping_example)
        = 33 / 10
   \<and> resets_cursor (OnMessage interruption 3) playing_example
   \<and> nextStartTimeRef (step pcm_example (spec_decode 10) (OnMessage interruption 3) playing_example)
        = 0"
proof -
  have 1: "\<not> touches_cursor ClickEnd" "\<not> resets_cursor (OnMessage chunk_b 3) playing_example"
    "resets_cursor (OnMessage interruption 3) playing_example"
    "\<not> resets_cursor (DecodeDone 0) overlapping_example"
    by (simp_all add: chunk_b_def interruption_def audio_branch_def overlapping_example_def)
  have 2: "nextStartTimeRef (step pcm_example (spec_decode 10) (OnMessage chunk_b 3)
             playing_example) = 3"
    "nextStartTimeRef (step pcm_example (spec_decode 10) (DecodeDone 0) overlapping_example)
       = 33 / 10"
    "nextStartTimeRef overlapping_example = 3"
    by (simp_all add: message_arrives_cursor decode_done_cursor audio_branch_def chunk_b_def
        playing_example_fields overlapping_example_def schedule_def buf_b_def duration_def
        Let_def)
  have 3: "well_formed overlapping_example"
    by (rule wf_frame [OF well_formed_examples(2)]) (simp_all add: overlapping_example_def)
  show ?thesis
    using cursor_monotone_but_for_resets [of playing_example pcm_example "spec_decode 10" ClickEnd]
      cursor_monotone_but_for_resets [of playing_example pcm_example "spec_decode 10"
        "OnMessage chunk_b 3"]
      cursor_monotone_but_for_resets [of overlapping_example pcm_example "spec_decode 10"
        "DecodeDone 0"]
      cursor_monotone_but_for_resets [of playing_example pcm_example "spec_decode 10"
        "OnMessage interruption 3"]
      1 2 3 well_formed_examples(2)
    by (simp add: playing_example_fields)
qed

text \<open>
  C8, as the spec has it, fails: with the cursor at 2.5, teardown leaves it at 2.5, and
  the session start that follows, which is neither an interruption nor a teardown,
  lowers it to 0.
\<close>

theorem start_resets_cursor_teardown_does_not:
  "nextStartTimeRef playing_example = 5 / 2
   \<and> nextStartTimeRef (step pcm_example (spec_decode 10) ClickEnd playing_example) = 5 / 2
   \<and> nextStartTimeRef (run pcm_example (spec_decode 10) [ClickEnd, ClickStart env_ok]
        playing_example) = 0"
  by (simp add: playing_example_fields stopSession_kept stopSession_refs startSession_def
      env_ok_def Let_def)

subsection \<open>Resets and suspended handlers\<close>





lemma decode_example_b: "spec_decode 10 ''012345'' = Inr buf_b"
  by (simp add: spec_decode_def buf_b_def)

lemma overlapping_example_run:
  "step enc (spec_decode 10) (OnMessage chunk_b 3) playing_example = overlapping_example"
  by (simp add: message_arrives_def chunk_b_def audio_branch_def sync_start_def
      decode_example_b overlapping_example_def playing_example_fields)


subsection \<open>The handler in one step and in two\<close>

text \<open>
  A handler that was suspended when teardown ran finds no gain node when it resumes: the
  \<open>connect\<close> of line 199 raises, the \<open>catch\<close> logs, and no handle reaches the live set.
\<close>

lemma resume_after_teardown: "sourcesRef (decode_done k (stopSession s)) = []"
proof (cases "pending (stopSession s) k")
  case None
  then show ?thesis by (simp add: decode_done_def stopSession_refs)
next
  case (Some a)
  obtain res intr where a: "a = (res, intr)" by (cases a)
  let ?t = "(stopSession s)\<lparr>pending := (pending (stopSession s))(k := None)\<rparr>"
  have "sourcesRef (schedule res ?t) = []"
    by (simp add: schedule_def Let_def stopSession_refs split: sum.splits)
  then have "sourcesRef (schedule res ?t) = [] \<and> sourcesRef (snd (interrupt (schedule res ?t))) = []"
    by (simp add: interrupt_def)
  with Some a show ?thesis
    by (simp add: decode_done_def Let_def)
qed

lemma finished_example_run:
  "step enc dec (PlaybackEnds 7) playing_example = finished_example"
  by (simp add: playback_ends_def playing_example_def finished_example_def)

lemma schedule_nextPending:
  "schedule res (s\<lparr>nextPending := n\<rparr>) = (schedule res s)\<lparr>nextPending := n\<rparr>"
  by (simp add: schedule_def Let_def split: sum.splits)

lemma interrupt_nextPending:
  "snd (interrupt (s\<lparr>nextPending := n\<rparr>)) = (snd (interrupt s))\<lparr>nextPending := n\<rparr>"
  by (simp add: interrupt_def split: prod.splits option.splits)

text \<open>
  When nothing happens between the arrival of a message and the resumption of its
  handler, the two steps of the event loop give the state that the handler run to its end
  gives, but for the count of suspended handlers.
\<close>

lemma handler_in_two_steps:
  assumes "audio_branch msg s" "pending s (nextPending s) = None"
  shows "decode_done (nextPending s) (message_arrives dec msg now s)
           = (snd (onmessage dec msg now s))\<lparr>nextPending := Suc (nextPending s)\<rparr>"
proof -
  from assms(1) obtain b where b: "base64Audio msg = Some b"
    by (auto simp: audio_branch_def split: option.splits)
  let ?k = "nextPending s"
  let ?a = "(sync_start now s)\<lparr>pending := (pending s)(?k \<mapsto> (dec b, interrupted msg)),
                               nextPending := Suc ?k\<rparr>"
  have arr: "message_arrives dec msg now s = ?a"
    using b assms(1) by (simp add: message_arrives_def)
  have "(pending s)(?k := None) = pending s"
    using assms(2) by (simp add: fun_upd_idem)
  then have cleared: "?a\<lparr>pending := (pending ?a)(?k := None)\<rparr>
           = (sync_start now s)\<lparr>nextPending := Suc ?k\<rparr>"
    by (simp add: sync_start_def)
  have "decode_done ?k ?a =
      (let s1 = schedule (dec b) ((sync_start now s)\<lparr>nextPending := Suc ?k\<rparr>)
       in if interrupted msg then snd (interrupt s1) else s1)"
    unfolding cleared [symmetric] by (simp add: decode_done_def)
  also have "\<dots> = (snd (onmessage dec msg now s))\<lparr>nextPending := Suc ?k\<rparr>"
    using b assms(1)
    by (simp add: onmessage_def Let_def schedule_nextPending interrupt_nextPending)
  finally show ?thesis
    unfolding arr .
qed

end
